theory Spec2Isabelle
  imports Main "HOL-Library.Sublist"
begin

section \<open>Go strings: the functions of package strings that the sources call\<close>

text \<open>
  A Go string is a sequence of bytes; \<open>string\<close> (a list of 8-bit characters) is the same
  thing. \<open>len\<close> is \<open>length\<close>, the slice \<open>s[i:]\<close> is \<open>drop i s\<close> and \<open>s[:i]\<close> is
  \<open>take i s\<close>. Library functions carry the name of their package as a prefix.
\<close>

definition strings_HasPrefix :: "string \<Rightarrow> string \<Rightarrow> bool" where
  "strings_HasPrefix s pre = (length pre \<le> length s \<and> take (length pre) s = pre)"

definition strings_HasSuffix :: "string \<Rightarrow> string \<Rightarrow> bool" where
  "strings_HasSuffix s suf = (length suf \<le> length s \<and> drop (length s - length suf) s = suf)"

definition strings_TrimSuffix :: "string \<Rightarrow> string \<Rightarrow> string" where
  "strings_TrimSuffix s suf =
     (if strings_HasSuffix s suf then take (length s - length suf) s else s)"

text \<open>\<open>strings.Join(elems, sep)\<close>.\<close>

fun strings_Join :: "string list \<Rightarrow> string \<Rightarrow> string" where
  "strings_Join [] sep = []"
| "strings_Join [e] sep = e"
| "strings_Join (e # e' # es) sep = e @ sep @ strings_Join (e' # es) sep"

text \<open>
  \<open>strings.Split(s, sep)\<close> for a separator of one byte, which is how the sources call it
  (\<open>"\n"\<close>): the pieces between the occurrences of the separator, so one piece more than
  there are separators, and the single piece \<open>""\<close> for the empty string.
\<close>

fun strings_Split :: "string \<Rightarrow> char \<Rightarrow> string list" where
  "strings_Split [] sep = [[]]"
| "strings_Split (c # cs) sep =
     (if c = sep then [] # strings_Split cs sep
      else (c # hd (strings_Split cs sep)) # tl (strings_Split cs sep))"

text \<open>
  \<open>strings.TrimSpace\<close> removes the white space of Unicode from both ends. A Go string holds
  UTF-8, so a white space character is one of the byte sequences below: the six of ASCII
  (tab, line feed, vertical tab, form feed, carriage return, space), U+0085 and U+00A0 in
  two bytes, and U+1680, U+2000 to U+200A, U+2028, U+2029, U+202F, U+205F and U+3000 in
  three. No sequence is a prefix or a suffix of another one.
\<close>

definition spaceRunes :: "string list" where
  "spaceRunes =
     [[CHR 0x09], [CHR 0x0A], [CHR 0x0B], [CHR 0x0C], [CHR 0x0D], [CHR 0x20],
      [CHR 0xC2, CHR 0x85], [CHR 0xC2, CHR 0xA0],
      [CHR 0xE1, CHR 0x9A, CHR 0x80],
      [CHR 0xE2, CHR 0x80, CHR 0x80], [CHR 0xE2, CHR 0x80, CHR 0x81],
      [CHR 0xE2, CHR 0x80, CHR 0x82], [CHR 0xE2, CHR 0x80, CHR 0x83],
      [CHR 0xE2, CHR 0x80, CHR 0x84], [CHR 0xE2, CHR 0x80, CHR 0x85],
      [CHR 0xE2, CHR 0x80, CHR 0x86], [CHR 0xE2, CHR 0x80, CHR 0x87],
      [CHR 0xE2, CHR 0x80, CHR 0x88], [CHR 0xE2, CHR 0x80, CHR 0x89],
      [CHR 0xE2, CHR 0x80, CHR 0x8A],
      [CHR 0xE2, CHR 0x80, CHR 0xA8], [CHR 0xE2, CHR 0x80, CHR 0xA9],
      [CHR 0xE2, CHR 0x80, CHR 0xAF], [CHR 0xE2, CHR 0x81, CHR 0x9F],
      [CHR 0xE3, CHR 0x80, CHR 0x80]]"

definition leadingSpace :: "string \<Rightarrow> nat" where
  "leadingSpace s = (case filter (\<lambda>r. prefix r s) spaceRunes of [] \<Rightarrow> 0 | r # _ \<Rightarrow> length r)"

definition trailingSpace :: "string \<Rightarrow> nat" where
  "trailingSpace s = (case filter (\<lambda>r. suffix r s) spaceRunes of [] \<Rightarrow> 0 | r # _ \<Rightarrow> length r)"

fun trimLeftSpace :: "string \<Rightarrow> string" where
  "trimLeftSpace [] = []"
| "trimLeftSpace (c # cs) =
     (if leadingSpace (c # cs) = 0 then c # cs
      else trimLeftSpace (drop (leadingSpace (c # cs) - 1) cs))"

function trimRightSpace :: "string \<Rightarrow> string" where
  "trimRightSpace s =
     (if s = [] \<or> trailingSpace s = 0 then s
      else trimRightSpace (take (length s - trailingSpace s) s))"
  by pat_completeness auto
termination
  by (relation "measure length") auto

text \<open>
  The equation of this loop rewrites its own right-hand side; it is applied by hand.
\<close>

declare trimRightSpace.simps [simp del]

definition strings_TrimSpace :: "string \<Rightarrow> string" where
  "strings_TrimSpace s = trimRightSpace (trimLeftSpace s)"

section \<open>Go paths: package path\<close>

text \<open>
  \<open>bytealg.LastIndexByteString\<close>: the index of the last occurrence of the byte, or -1.
\<close>

primrec LastIndexByte :: "string \<Rightarrow> char \<Rightarrow> int" where
  "LastIndexByte [] c = - 1"
| "LastIndexByte (x # xs) c =
     (let i = LastIndexByte xs c in if 0 \<le> i then i + 1 else if x = c then 0 else - 1)"

text \<open>
  \<open>path.Clean\<close> reads the path from left to right and writes the cleaned path into a
  buffer. \<open>cleanLoop rooted rest out dotdot\<close> is its loop: \<open>rest\<close> is what is still to be
  read (\<open>path[r:]\<close>), \<open>out\<close> the bytes written so far (\<open>out.w\<close> is its length) and
  \<open>dotdot\<close> the index in the buffer below which a \<open>..\<close> element may not remove anything.
  \<open>backtrack\<close> is the removal of the last element for a \<open>..\<close>:
  \<^verbatim>\<open>
      out.w--
      for out.w > dotdot && out.index(out.w) != '/' {
          out.w--
      }
  \<close>
\<close>

function backtrack :: "string \<Rightarrow> nat \<Rightarrow> string" where
  "backtrack out dotdot =
     (if dotdot < length out - 1 \<and> last out \<noteq> CHR ''/'' then backtrack (butlast out) dotdot
      else butlast out)"
  by pat_completeness auto
termination
  by (relation "measure (\<lambda>(out, dotdot). length out)") auto

declare backtrack.simps [simp del]

function cleanLoop :: "bool \<Rightarrow> string \<Rightarrow> string \<Rightarrow> nat \<Rightarrow> string" where
  "cleanLoop rooted [] out dotdot = out"
| "cleanLoop rooted (c # cs) out dotdot =
     (if c = CHR ''/'' then cleanLoop rooted cs out dotdot
      else if c = CHR ''.'' \<and> (cs = [] \<or> hd cs = CHR ''/'') then cleanLoop rooted cs out dotdot
      else if c = CHR ''.'' \<and> hd cs = CHR ''.'' \<and> (tl cs = [] \<or> hd (tl cs) = CHR ''/'') then
        (if dotdot < length out then cleanLoop rooted (tl cs) (backtrack out dotdot) dotdot
         else if \<not> rooted then
           cleanLoop rooted (tl cs) ((if 0 < length out then out @ ''/'' else out) @ ''..'')
             (length ((if 0 < length out then out @ ''/'' else out) @ ''..''))
         else cleanLoop rooted (tl cs) out dotdot)
      else
        cleanLoop rooted (dropWhile (\<lambda>x. x \<noteq> CHR ''/'') cs)
          ((if rooted \<and> length out \<noteq> 1 \<or> \<not> rooted \<and> length out \<noteq> 0 then out @ ''/'' else out)
             @ c # takeWhile (\<lambda>x. x \<noteq> CHR ''/'') cs)
          dotdot)"
  by pat_completeness auto
termination
proof (relation "measure (\<lambda>(rooted, rest, out, dotdot). length rest)")
  fix c :: char and cs :: string
  show "((rooted, dropWhile (\<lambda>x. x \<noteq> CHR ''/'') cs, out', dotdot), (rooted, c # cs, out, dotdot))
          \<in> measure (\<lambda>(rooted, rest, out, dotdot). length rest)" for rooted out out' dotdot
    using length_dropWhile_le [of "\<lambda>x. x \<noteq> CHR ''/''" cs] by simp
qed auto

declare cleanLoop.simps(2) [simp del]

definition path_Clean :: "string \<Rightarrow> string" where
  "path_Clean p =
     (if p = [] then ''.''
      else if hd p = CHR ''/'' then cleanLoop True (tl p) ''/'' 1
      else if cleanLoop False p [] 0 = [] then ''.''
      else cleanLoop False p [] 0)"

text \<open>\<open>path.Split\<close>: the path up to and with its last slash, and what follows it.\<close>

definition path_Split :: "string \<Rightarrow> string \<times> string" where
  "path_Split p =
     (take (nat (LastIndexByte p CHR ''/'' + 1)) p, drop (nat (LastIndexByte p CHR ''/'' + 1)) p)"

definition path_Dir :: "string \<Rightarrow> string" where
  "path_Dir p = path_Clean (fst (path_Split p))"

text \<open>
  \<open>path.Base\<close>: the last element of the path, read after the trailing slashes are
  stripped; \<open>"."\<close> for the empty path and \<open>"/"\<close> for a path of slashes only.
\<close>

definition stripSlashes :: "string \<Rightarrow> string" where
  "stripSlashes p = rev (dropWhile (\<lambda>x. x = CHR ''/'') (rev p))"

definition path_Base :: "string \<Rightarrow> string" where
  "path_Base p =
     (if p = [] then ''.''
      else if drop (nat (LastIndexByte (stripSlashes p) CHR ''/'' + 1)) (stripSlashes p) = [] then ''/''
      else drop (nat (LastIndexByte (stripSlashes p) CHR ''/'' + 1)) (stripSlashes p))"

text \<open>
  \<open>path.Join\<close>: the elements from the first non-empty one on, joined by slashes and
  cleaned; the empty string when every element is empty.
\<close>

definition path_Join :: "string list \<Rightarrow> string" where
  "path_Join elem =
     (if dropWhile (\<lambda>e. e = []) elem = [] then []
      else path_Clean (strings_Join (dropWhile (\<lambda>e. e = []) elem) ''/''))"

text \<open>\<open>path.IsAbs\<close>: the path begins with a slash.\<close>

definition path_IsAbs :: "string \<Rightarrow> bool" where
  "path_IsAbs p = (0 < length p \<and> p ! 0 = CHR ''/'')"

section \<open>The world outside the program\<close>

text \<open>
  A Go \<open>error\<close> is seen through its method \<open>Error()\<close>, the message; \<open>nil\<close> is \<open>None\<close> of
  \<open>error option\<close>. The \<open>os.FileInfo\<close> of \<open>os.Stat\<close> is read through \<open>IsDir()\<close> only.
\<close>

datatype error = GoError string

record FileInfo =
  IsDir :: bool

text \<open>
  The operating system and the version-control tools are parameters of the model: a record
  of the calls the sources make, over a state \<open>'w\<close> of the world (file system, repositories,
  remotes) that the model does not look into.
  \<^item> \<open>os_Stat name\<close>, \<open>os_Getwd\<close>: read the world;
  \<^item> \<open>os_RemoveAll path\<close>, \<open>os_MkdirAll path perm\<close>: change it and return \<open>nil\<close> or an error;
  \<^item> \<open>cmd_Run name args dir\<close>: \<open>exec.Command(name, args...)\<close> with \<open>cmd.Dir = dir\<close> and
    buffers for both output streams, then \<open>cmd.Run()\<close>: what the subprocess wrote to its
    standard output and to its standard error, and the error of \<open>Run\<close> (\<open>nil\<close> exactly when
    the subprocess ran and exited with status 0).
\<close>

record 'w sys =
  os_Stat :: "string \<Rightarrow> 'w \<Rightarrow> error + FileInfo"
  os_Getwd :: "'w \<Rightarrow> error + string"
  os_RemoveAll :: "string \<Rightarrow> 'w \<Rightarrow> error option \<times> 'w"
  os_MkdirAll :: "string \<Rightarrow> nat \<Rightarrow> 'w \<Rightarrow> error option \<times> 'w"
  cmd_Run :: "string \<Rightarrow> string list \<Rightarrow> string \<Rightarrow> 'w \<Rightarrow> (string \<times> string \<times> error option) \<times> 'w"

section \<open>Package fmt and package log\<close>

text \<open>
  The operands of a formatted message. \<open>Sprintf\<close> is the fragment of \<open>fmt.Sprintf\<close> that
  the modelled calls use: text and the verb \<open>%s\<close>, which prints a string operand as it is
  and an error operand by its message. Any other verb, a missing operand and a left-over
  operand are outside the fragment (\<open>None\<close>).
\<close>

datatype arg = Str string | Err error

fun operand :: "arg \<Rightarrow> string" where
  "operand (Str s) = s"
| "operand (Err (GoError msg)) = msg"

fun Sprintf :: "string \<Rightarrow> arg list \<Rightarrow> string option" where
  "Sprintf [] [] = Some []"
| "Sprintf [] (a # as) = None"
| "Sprintf (c # fmt) as =
     (if c = CHR ''%'' then
        (case (fmt, as) of
           (v # fmt', a # as') \<Rightarrow>
             (if v = CHR ''s'' then map_option (\<lambda>r. operand a @ r) (Sprintf fmt' as') else None)
         | _ \<Rightarrow> None)
      else map_option (\<lambda>r. c # r) (Sprintf fmt as))"

text \<open>
  Modelled from the spec: package \<open>log\<close> of the repository is not among the sources. Its
  functions take a format and operands. \<open>log.Debug\<close>, \<open>log.Log\<close> and \<open>log.Warning\<close> emit a
  message and return; \<open>log.Fatal\<close> emits its message and terminates the process (the spec:
  every kind of error terminates the whole run; the sources: "exiting with an error message
  if the command could not be executed"). A call that returns is an event of the trace, and
  so is every subprocess the program starts; a call of \<open>log.Fatal\<close> is the outcome \<open>Fatal\<close> of
  the function that made it and of all its callers. Format and operands are kept as the
  call gives them; the message printed is their \<open>Sprintf\<close>.
\<close>

datatype event =
    Debug string "arg list"
  | Log string "arg list"
  | Warning string "arg list"
  | Exec string "string list" string

datatype 'a outcome = Return 'a | Fatal string "arg list"

record 'w state =
  world :: 'w
  trace :: "event list"

definition emit :: "event \<Rightarrow> 'w state \<Rightarrow> 'w state" where
  "emit e st = st\<lparr>trace := trace st @ [e]\<rparr>"

text \<open>
  Running a subprocess: the run in the world, which gives the two captured streams and the
  error of \<open>cmd.Run()\<close>, and its event in the trace.
\<close>

definition run :: "'w sys \<Rightarrow> string \<Rightarrow> string list \<Rightarrow> string \<Rightarrow> 'w state
    \<Rightarrow> (string \<times> string \<times> error option) \<times> 'w state" where
  "run S name args dir st =
     (case cmd_Run S name args dir (world st) of
        (r, w') \<Rightarrow> (r, st\<lparr>world := w', trace := trace st @ [Exec name args dir]\<rparr>))"

section \<open>Package util\<close>

text \<open>
  \<^verbatim>\<open>
  func CutPrefix(str string, prefix string) (string, bool) {
      if strings.HasPrefix(str, prefix) {
          return str[len(prefix):], true
      }
      return str, false
  }
  \<close>
\<close>

definition CutPrefix :: "string \<Rightarrow> string \<Rightarrow> string \<times> bool" where
  "CutPrefix str pre =
     (if strings_HasPrefix str pre then (drop (length pre) str, True) else (str, False))"

definition ModuleFileName :: string where
  "ModuleFileName = ''MODULE''"

definition DepsDirName :: string where
  "DepsDirName = ''DEPS''"

text \<open>\<open>const dirMode = 0775\<close>, an octal numeral.\<close>

definition dirMode :: nat where
  "dirMode = 509"

text \<open>
  \<^verbatim>\<open>
  func FileExists(file string) bool {
      stat, err := os.Stat(file)
      return err == nil && !stat.IsDir()
  }
  func DirExists(dir string) bool {
      stat, err := os.Stat(dir)
      return err == nil && stat.IsDir()
  }
  \<close>
\<close>

definition FileExists :: "'w sys \<Rightarrow> 'w \<Rightarrow> string \<Rightarrow> bool" where
  "FileExists S w file = (case os_Stat S file w of Inl err \<Rightarrow> False | Inr stat \<Rightarrow> \<not> IsDir stat)"

definition DirExists :: "'w sys \<Rightarrow> 'w \<Rightarrow> string \<Rightarrow> bool" where
  "DirExists S w dir = (case os_Stat S dir w of Inl err \<Rightarrow> False | Inr stat \<Rightarrow> IsDir stat)"

text \<open>
  \<^verbatim>\<open>
  func RemoveDir(p string) {
      err := os.RemoveAll(p)
      if err != nil {
          log.Fatal("Failed to remove directory '%s': %s.\n", p, err)
      }
  }
  func MkdirAll(p string) {
      err := os.MkdirAll(p, dirMode)
      if err != nil {
          log.Fatal("Failed to create directory '%s': %s.\n", p, err)
      }
  }
  \<close>
\<close>

definition RemoveDir :: "'w sys \<Rightarrow> string \<Rightarrow> 'w state \<Rightarrow> unit outcome \<times> 'w state" where
  "RemoveDir S p st =
     (case os_RemoveAll S p (world st) of
        (None, w') \<Rightarrow> (Return (), st\<lparr>world := w'\<rparr>)
      | (Some err, w') \<Rightarrow>
          (Fatal ''Failed to remove directory '%s': %s.\<newline>'' [Str p, Err err],
           st\<lparr>world := w'\<rparr>))"

definition MkdirAll :: "'w sys \<Rightarrow> string \<Rightarrow> 'w state \<Rightarrow> unit outcome \<times> 'w state" where
  "MkdirAll S p st =
     (case os_MkdirAll S p dirMode (world st) of
        (None, w') \<Rightarrow> (Return (), st\<lparr>world := w'\<rparr>)
      | (Some err, w') \<Rightarrow>
          (Fatal ''Failed to create directory '%s': %s.\<newline>'' [Str p, Err err],
           st\<lparr>world := w'\<rparr>))"

text \<open>
  \<^verbatim>\<open>
  func getModuleRoot(p string) (string, error) {
      for {
          moduleFilePath := path.Join(p, ModuleFileName)
          gitDirPath := path.Join(p, ".git")
          parentDirName := path.Base(path.Dir(p))
          if FileExists(moduleFilePath) || parentDirName == DepsDirName || DirExists(gitDirPath) {
              return p, nil
          }
          if p == "/" {
              return "", fmt.Errorf("not inside a module")
          }
          p = path.Dir(p)
      }
  }
  \<close>
  The loop has no bound of its own, so the function is partial: \<open>None\<close> is a loop that
  never returns. \<open>isModuleRoot\<close> is the condition of the first \<open>if\<close>.
\<close>

definition isModuleRoot :: "'w sys \<Rightarrow> 'w \<Rightarrow> string \<Rightarrow> bool" where
  "isModuleRoot S w p =
     (FileExists S w (path_Join [p, ModuleFileName]) \<or>
      path_Base (path_Dir p) = DepsDirName \<or>
      DirExists S w (path_Join [p, ''.git'']))"

partial_function (option) getModuleRoot :: "'w sys \<Rightarrow> 'w \<Rightarrow> string \<Rightarrow> (error + string) option" where
  "getModuleRoot S w p =
     (if isModuleRoot S w p then Some (Inr p)
      else if p = ''/'' then Some (Inl (GoError ''not inside a module''))
      else getModuleRoot S w (path_Dir p))"

text \<open>
  \<^verbatim>\<open>
  func GetWorkingDir() string {
      workingDir, err := os.Getwd()
      if err != nil {
          log.Fatal("Could not get working directory: %s.\n", err)
      }
      return workingDir
  }
  \<close>
\<close>

definition GetWorkingDir :: "'w sys \<Rightarrow> 'w state \<Rightarrow> string outcome \<times> 'w state" where
  "GetWorkingDir S st =
     (case os_Getwd S (world st) of
        Inr workingDir \<Rightarrow> (Return workingDir, st)
      | Inl err \<Rightarrow> (Fatal ''Could not get working directory: %s.\<newline>'' [Err err], st))"

text \<open>
  \<^verbatim>\<open>
  func GetWorkspaceRoot() string {
      var err error
      p := GetWorkingDir()
      for {
          p, err = getModuleRoot(p)
          if err != nil {
              log.Fatal("Could not identify workspace root directory. Make sure you run this command inside a workspace: %s.\n", err)
          }
          parentDirName := path.Base(path.Dir(p))
          if parentDirName != DepsDirName {
              return p
          }
          p = path.Dir(p)
      }
  }
  \<close>
  \<open>workspaceRootLoop\<close> is the loop, from the value of \<open>p\<close> at its head; it reads the world
  and changes nothing.
\<close>

partial_function (option) workspaceRootLoop :: "'w sys \<Rightarrow> 'w \<Rightarrow> string \<Rightarrow> string outcome option" where
  "workspaceRootLoop S w p =
     Option.bind (getModuleRoot S w p) (\<lambda>r.
       case r of
         Inl err \<Rightarrow>
           Some (Fatal ''Could not identify workspace root directory. Make sure you run this command inside a workspace: %s.\<newline>'' [Err err])
       | Inr p' \<Rightarrow>
           if path_Base (path_Dir p') \<noteq> DepsDirName then Some (Return p')
           else workspaceRootLoop S w (path_Dir p'))"

definition GetWorkspaceRoot :: "'w sys \<Rightarrow> 'w state \<Rightarrow> (string outcome \<times> 'w state) option" where
  "GetWorkspaceRoot S st =
     (case GetWorkingDir S st of
        (Fatal f a, st') \<Rightarrow> Some (Fatal f a, st')
      | (Return p, st') \<Rightarrow> map_option (\<lambda>r. (r, st')) (workspaceRootLoop S (world st') p))"

section \<open>Package module: the Jujutsu backend\<close>

text \<open>
  \<^verbatim>\<open>
  type JujutsuModule struct {
      path string
  }
  \<close>
\<close>

record JujutsuModule =
  path :: string

text \<open>
  \<^verbatim>\<open>
  func (m JujutsuModule) tryRunJjCommand(args ...string) (string, string, error) {
      stderr := bytes.Buffer{}
      stdout := bytes.Buffer{}
      log.Debug("Running jj command: jj %s\n", strings.Join(args, " "))
      cmd := exec.Command("jj", args...)
      cmd.Stderr = &stderr
      cmd.Stdout = &stdout
      cmd.Dir = m.path
      err := cmd.Run()
      return strings.TrimSuffix(stdout.String(), "\n"), strings.TrimSuffix(stderr.String(), "\n"), err
  }
  \<close>
\<close>

definition tryRunJjCommand :: "'w sys \<Rightarrow> JujutsuModule \<Rightarrow> string list \<Rightarrow> 'w state
    \<Rightarrow> (string \<times> string \<times> error option) \<times> 'w state" where
  "tryRunJjCommand S m args st =
     (case run S ''jj'' args (path m)
             (emit (Debug ''Running jj command: jj %s\<newline>'' [Str (strings_Join args '' '')]) st) of
        ((stdout, stderr, err), st') \<Rightarrow>
          ((strings_TrimSuffix stdout ''\<newline>'', strings_TrimSuffix stderr ''\<newline>'', err), st'))"

text \<open>
  \<^verbatim>\<open>
  func (m JujutsuModule) runJjCommand(args ...string) string {
      stdout, stderr, err := m.tryRunJjCommand(args...)
      if err != nil {
          log.Fatal("Failed to run jj command 'jj %s':\n%s\n%s\n%s\n", strings.Join(args, " "), stderr, stdout, err)
      }
      return stdout
  }
  \<close>
\<close>

definition runJjCommand :: "'w sys \<Rightarrow> JujutsuModule \<Rightarrow> string list \<Rightarrow> 'w state
    \<Rightarrow> string outcome \<times> 'w state" where
  "runJjCommand S m args st =
     (case tryRunJjCommand S m args st of
        ((stdout, stderr, Some err), st') \<Rightarrow>
          (Fatal ''Failed to run jj command 'jj %s':\<newline>%s\<newline>%s\<newline>%s\<newline>''
             [Str (strings_Join args '' ''), Str stderr, Str stdout, Err err],
           st')
      | ((stdout, stderr, None), st') \<Rightarrow> (Return stdout, st'))"

text \<open>
  \<^verbatim>\<open>
  func (m JujutsuModule) locateGitRepo() string {
      return m.runJjCommand("git", "root")
  }
  \<close>
\<close>

definition locateGitRepo :: "'w sys \<Rightarrow> JujutsuModule \<Rightarrow> 'w state \<Rightarrow> string outcome \<times> 'w state" where
  "locateGitRepo S m st = runJjCommand S m [''git'', ''root''] st"

text \<open>
  \<^verbatim>\<open>
  func (m JujutsuModule) tryRunGitCommand(args ...string) (string, string, error) {
      stderr := bytes.Buffer{}
      stdout := bytes.Buffer{}
      log.Debug("Running git command: git %s\n", strings.Join(args, " "))
      cmd := exec.Command("git", args...)
      cmd.Stderr = &stderr
      cmd.Stdout = &stdout
      gitRepoPath := m.locateGitRepo()
      cmd.Dir = gitRepoPath
      err := cmd.Run()
      return strings.TrimSuffix(stdout.String(), "\n"), strings.TrimSuffix(stderr.String(), "\n"), err
  }
  \<close>
  \<open>locateGitRepo\<close> runs \<open>jj git root\<close> through the runner that terminates the process
  on failure, so this function has the outcome \<open>Fatal\<close> too.
\<close>

definition tryRunGitCommand :: "'w sys \<Rightarrow> JujutsuModule \<Rightarrow> string list \<Rightarrow> 'w state
    \<Rightarrow> (string \<times> string \<times> error option) outcome \<times> 'w state" where
  "tryRunGitCommand S m args st =
     (case locateGitRepo S m
             (emit (Debug ''Running git command: git %s\<newline>'' [Str (strings_Join args '' '')]) st) of
        (Fatal f a, st') \<Rightarrow> (Fatal f a, st')
      | (Return gitRepoPath, st') \<Rightarrow>
          (case run S ''git'' args gitRepoPath st' of
             ((stdout, stderr, err), st'') \<Rightarrow>
               (Return (strings_TrimSuffix stdout ''\<newline>'', strings_TrimSuffix stderr ''\<newline>'', err),
                st'')))"

text \<open>
  \<^verbatim>\<open>
  func (m JujutsuModule) runGitCommand(args ...string) string {
      stdout, stderr, err := m.tryRunGitCommand(args...)
      if err != nil {
          log.Fatal("Failed to run git command 'git %s':\n%s\n%s\n%s\n", strings.Join(args, " "), stderr, stdout, err)
      }
      return stdout
  }
  \<close>
\<close>

definition runGitCommand :: "'w sys \<Rightarrow> JujutsuModule \<Rightarrow> string list \<Rightarrow> 'w state
    \<Rightarrow> string outcome \<times> 'w state" where
  "runGitCommand S m args st =
     (case tryRunGitCommand S m args st of
        (Fatal f a, st') \<Rightarrow> (Fatal f a, st')
      | (Return (stdout, stderr, Some err), st') \<Rightarrow>
          (Fatal ''Failed to run git command 'git %s':\<newline>%s\<newline>%s\<newline>%s\<newline>''
             [Str (strings_Join args '' ''), Str stderr, Str stdout, Err err],
           st')
      | (Return (stdout, stderr, None), st') \<Rightarrow> (Return stdout, st'))"

text \<open>
  \<^verbatim>\<open>
  func (m JujutsuModule) URL() string {
      return m.runGitCommand("config", "--get", "remote.origin.url")
  }
  func (m JujutsuModule) Name() string {
      return strings.TrimSuffix(path.Base(m.URL()), ".git")
  }
  \<close>
  \<open>nameOfURL\<close> is the expression of \<open>Name\<close> around the call of \<open>URL\<close>.
\<close>

definition URL :: "'w sys \<Rightarrow> JujutsuModule \<Rightarrow> 'w state \<Rightarrow> string outcome \<times> 'w state" where
  "URL S m st = runGitCommand S m [''config'', ''--get'', ''remote.origin.url''] st"

definition nameOfURL :: "string \<Rightarrow> string" where
  "nameOfURL url = strings_TrimSuffix (path_Base url) ''.git''"

definition Name :: "'w sys \<Rightarrow> JujutsuModule \<Rightarrow> 'w state \<Rightarrow> string outcome \<times> 'w state" where
  "Name S m st =
     (case URL S m st of
        (Fatal f a, st') \<Rightarrow> (Fatal f a, st')
      | (Return url, st') \<Rightarrow> (Return (nameOfURL url), st'))"

text \<open>
  \<^verbatim>\<open>
  func (m JujutsuModule) RevParse(ref string) string {
      return string(m.runGitCommand("rev-list", "-n", "1", ref))
  }
  \<close>
\<close>

definition RevParse :: "'w sys \<Rightarrow> JujutsuModule \<Rightarrow> string \<Rightarrow> 'w state \<Rightarrow> string outcome \<times> 'w state" where
  "RevParse S m ref st = runGitCommand S m [''rev-list'', ''-n'', ''1'', ref] st"

text \<open>
  \<^verbatim>\<open>
  func (m JujutsuModule) IsDirty() bool {
      // jujutsu is never dirty by design, for better or worse
      return false
  }
  \<close>
  The method reads nothing; the state is an argument so that the result can be stated for
  every state.
\<close>

definition IsDirty :: "'w sys \<Rightarrow> JujutsuModule \<Rightarrow> 'w state \<Rightarrow> bool" where
  "IsDirty S m st = False"



text \<open>
  \<^verbatim>\<open>
  func (m JujutsuModule) Checkout(ref string) {
      // Checkout is unsupported in jj as of now. Let's disallow it.
      log.Fatal("Unable to checkout a JJ repository to ", ref)
  }
  \<close>
\<close>

definition Checkout :: "'w sys \<Rightarrow> JujutsuModule \<Rightarrow> string \<Rightarrow> 'w state \<Rightarrow> unit outcome \<times> 'w state" where
  "Checkout S m ref st = (Fatal ''Unable to checkout a JJ repository to '' [Str ref], st)"

text \<open>
  \<^verbatim>\<open>
  func (m JujutsuModule) GetCommitsBetweenRefs(base, head string) ([]string, error) {
      result := []string{}
      stdout, _, err := m.tryRunGitCommand("rev-list", strings.Join([]string{strings.TrimSpace(base), strings.TrimSpace(head)}, ".."))
      for _, line := range strings.Split(stdout, "\n") {
          trimmedLine := strings.TrimSpace(line)
          if len(trimmedLine) == 0 {
              continue
          }
          result = append(result, trimmedLine)
      }
      return result, err
  }
  \<close>
  \<open>collectLines result lines\<close> is the \<open>for\<close> loop over the lines that are left.
\<close>

fun collectLines :: "string list \<Rightarrow> string list \<Rightarrow> string list" where
  "collectLines result [] = result"
| "collectLines result (line # lines) =
     (if length (strings_TrimSpace line) = 0 then collectLines result lines
      else collectLines (result @ [strings_TrimSpace line]) lines)"

definition GetCommitsBetweenRefs :: "'w sys \<Rightarrow> JujutsuModule \<Rightarrow> string \<Rightarrow> string \<Rightarrow> 'w state
    \<Rightarrow> (string list \<times> error option) outcome \<times> 'w state" where
  "GetCommitsBetweenRefs S m base head st =
     (case tryRunGitCommand S m
             [''rev-list'', strings_Join [strings_TrimSpace base, strings_TrimSpace head] ''..''] st of
        (Fatal f a, st') \<Rightarrow> (Fatal f a, st')
      | (Return (stdout, stderr, err), st') \<Rightarrow>
          (Return (collectLines [] (strings_Split stdout CHR 0x0A), err), st'))"

text \<open>
  \<^verbatim>\<open>
  func (m JujutsuModule) clone(url string) error {
      var err error
      log.Log("Cloning '%s'.\n", url)
      _, _, err = m.tryRunJjCommand("git", "clone", url, m.path)
      if err != nil {
          // Leave clean state so that the operation can be retried
          util.RemoveDir(m.path)
      }
      return err
  }
  \<close>
\<close>

definition clone :: "'w sys \<Rightarrow> JujutsuModule \<Rightarrow> string \<Rightarrow> 'w state \<Rightarrow> error option outcome \<times> 'w state" where
  "clone S m url st =
     (case tryRunJjCommand S m [''git'', ''clone'', url, path m]
             (emit (Log ''Cloning '%s'.\<newline>'' [Str url]) st) of
        ((stdout, stderr, Some err), st') \<Rightarrow>
          (case RemoveDir S (path m) st' of
             (Fatal f a, st'') \<Rightarrow> (Fatal f a, st'')
           | (Return u, st'') \<Rightarrow> (Return (Some err), st''))
      | ((stdout, stderr, None), st') \<Rightarrow> (Return None, st'))"

text \<open>
  \<^verbatim>\<open>
  func createJujutsuModule(modulePath, url string) (Module, error) {
      mod := JujutsuModule{modulePath}
      util.MkdirAll(modulePath)
      if err := mod.clone(url); err != nil {
          return nil, err
      }
      return mod, nil
  }
  \<close>
  The two results are one value: the error, or the module.
\<close>

definition createJujutsuModule :: "'w sys \<Rightarrow> string \<Rightarrow> string \<Rightarrow> 'w state
    \<Rightarrow> (error + JujutsuModule) outcome \<times> 'w state" where
  "createJujutsuModule S modulePath url st =
     (case MkdirAll S modulePath st of
        (Fatal f a, st') \<Rightarrow> (Fatal f a, st')
      | (Return u, st') \<Rightarrow>
          (case clone S \<lparr>path = modulePath\<rparr> url st' of
             (Fatal f a, st'') \<Rightarrow> (Fatal f a, st'')
           | (Return (Some err), st'') \<Rightarrow> (Return (Inl err), st'')
           | (Return None, st'') \<Rightarrow> (Return (Inr \<lparr>path = modulePath\<rparr>), st'')))"

section \<open>What the sources rely on in the operating system and in the tools\<close>

text \<open>
  A path is absent when \<open>os.Stat\<close> finds neither a file nor a directory there.
  \<open>osContract\<close> is what the documentation of package \<open>os\<close> promises for a \<open>nil\<close> result
  of \<open>os.RemoveAll(p)\<close>: nothing is left at \<open>p\<close>.

  There is a working copy at \<open>p\<close> when \<open>p\<close> is a directory that holds the directory
  \<open>.jj\<close>, where the tool keeps the repository. \<open>cloneMakesWorkingCopy\<close> is what is
  expected of the tool: after a \<open>jj git clone\<close> to an absolute destination that exits with
  status 0, there is a working copy at the destination.
\<close>

definition absent :: "'w sys \<Rightarrow> 'w \<Rightarrow> string \<Rightarrow> bool" where
  "absent S w p = (\<not> FileExists S w p \<and> \<not> DirExists S w p)"

definition osContract :: "'w sys \<Rightarrow> bool" where
  "osContract S = (\<forall>p w w'. os_RemoveAll S p w = (None, w') \<longrightarrow> absent S w' p)"

definition workingCopyAt :: "'w sys \<Rightarrow> 'w \<Rightarrow> string \<Rightarrow> bool" where
  "workingCopyAt S w p = (DirExists S w p \<and> DirExists S w (path_Join [p, ''.jj'']))"

definition cloneMakesWorkingCopy :: "'w sys \<Rightarrow> bool" where
  "cloneMakesWorkingCopy S =
     (\<forall>url p dir w out errout w'.
        path_IsAbs p \<and> cmd_Run S ''jj'' [''git'', ''clone'', url, p] dir w = ((out, errout, None), w')
          \<longrightarrow> workingCopyAt S w' p)"

section \<open>Commit identifiers\<close>

text \<open>
  \<open>git rev-list\<close> prints one commit identifier on each line: a non-empty string of
  hexadecimal digits.
\<close>

definition isCommitId :: "string \<Rightarrow> bool" where
  "isCommitId c = (c \<noteq> [] \<and> set c \<subseteq> set ''0123456789abcdef'')"

section \<open>Walking up from a directory\<close>

text \<open>
  \<open>(path_Dir ^^ k) p\<close> is the directory \<open>k\<close> levels above \<open>p\<close>. \<open>nearest P p q\<close>: going up
  from \<open>p\<close>, with \<open>p\<close> itself first, \<open>q\<close> is the first directory that satisfies \<open>P\<close>.
  \<open>isWorkspaceRoot\<close> is what \<open>GetWorkspaceRoot\<close> stops at: the root of a module whose parent
  directory is not named \<open>DEPS\<close>.
\<close>

definition nearest :: "(string \<Rightarrow> bool) \<Rightarrow> string \<Rightarrow> string \<Rightarrow> bool" where
  "nearest P p q = (\<exists>k. q = (path_Dir ^^ k) p \<and> P q \<and> (\<forall>j<k. \<not> P ((path_Dir ^^ j) p)))"

definition isWorkspaceRoot :: "'w sys \<Rightarrow> 'w \<Rightarrow> string \<Rightarrow> bool" where
  "isWorkspaceRoot S w p = (isModuleRoot S w p \<and> path_Base (path_Dir p) \<noteq> DepsDirName)"

section \<open>An in-memory world, for concrete runs\<close>

text \<open>
  A small world to run the model in: the directories and files that exist, the paths the
  operating system refuses to remove, the working directory, the commits that the local
  repository holds and those that its remote offers, the stream on which the tool reports
  a fetch (standard output or standard error), and a table of answers (standard output,
  standard error, error of \<open>Run\<close>) for the other command lines of the two tools. A relative
  name is resolved against the working directory.

  \<open>jj git fetch\<close> copies to the local repository the commits that the remote offers and
  the repository lacks, and reports what it did. \<open>jj git clone\<close> leaves its destination
  directory behind whether or not it succeeds, and the repository directory \<open>.jj\<close> in it
  when it succeeds. \<open>arrived w w'\<close>: the local repository holds a commit in \<open>w'\<close> that
  it did not hold in \<open>w\<close>.
\<close>

record fake =
  dirs :: "string list"
  files :: "string list"
  stuck :: "string list"
  cwd :: string
  localCommits :: "string list"
  remoteCommits :: "string list"
  reportOnStdout :: bool
  answers :: "((string \<times> string list) \<times> (string \<times> string \<times> error option)) list"

definition under :: "string \<Rightarrow> string \<Rightarrow> bool" where
  "under p q = (q = p \<or> prefix (p @ ''/'') q)"

definition resolve :: "fake \<Rightarrow> string \<Rightarrow> string" where
  "resolve w name = (if path_IsAbs name then name else path_Join [cwd w, name])"

definition incoming :: "fake \<Rightarrow> string list" where
  "incoming w = filter (\<lambda>c. c \<notin> set (localCommits w)) (remoteCommits w)"

definition fetchReport :: "fake \<Rightarrow> string" where
  "fetchReport w =
     (if incoming w = [] then ''Nothing changed.\<newline>''
      else ''bookmark: main@origin [updated] tracked\<newline>'')"


definition fakeSys :: "fake sys" where
  "fakeSys =
     \<lparr>os_Stat = (\<lambda>name w.
         if resolve w name \<in> set (dirs w) then Inr \<lparr>IsDir = True\<rparr>
         else if resolve w name \<in> set (files w) then Inr \<lparr>IsDir = False\<rparr>
         else Inl (GoError ''no such file or directory'')),
      os_Getwd = (\<lambda>w. Inr (cwd w)),
      os_RemoveAll = (\<lambda>p w.
         if resolve w p \<in> set (stuck w) then (Some (GoError ''permission denied''), w)
         else (None, w\<lparr>dirs := filter (\<lambda>q. \<not> under (resolve w p) q) (dirs w),
                       files := filter (\<lambda>q. \<not> under (resolve w p) q) (files w)\<rparr>)),
      os_MkdirAll = (\<lambda>p perm w.
         if resolve w p \<in> set (files w) then (Some (GoError ''not a directory''), w)
         else (None, w\<lparr>dirs := resolve w p # dirs w\<rparr>)),
      cmd_Run = (\<lambda>name args dir w.
         if name = ''jj'' \<and> args = [''git'', ''fetch''] then
           ((if reportOnStdout w then fetchReport w else [],
             if reportOnStdout w then [] else fetchReport w,
             None),
            w\<lparr>localCommits := localCommits w @ incoming w\<rparr>)
         else
           (case map_of (answers w) (name, args) of
              None \<Rightarrow> (([], ''unknown command\<newline>'', Some (GoError ''exit status 2'')), w)
            | Some r \<Rightarrow>
                (r, if name = ''jj'' \<and> take 2 args = [''git'', ''clone''] \<and> length args = 4
                    then (case snd (snd r) of
                            Some err \<Rightarrow>
                              w\<lparr>dirs := resolve (w\<lparr>cwd := resolve w dir\<rparr>) (args ! 3) # dirs w\<rparr>
                          | None \<Rightarrow>
                              w\<lparr>dirs := path_Join [resolve (w\<lparr>cwd := resolve w dir\<rparr>) (args ! 3), ''.jj'']
                                          # resolve (w\<lparr>cwd := resolve w dir\<rparr>) (args ! 3) # dirs w\<rparr>)
                    else w)))\<rparr>"

text \<open>
  A workspace \<open>/ws\<close> with the dependency \<open>lib\<close> under \<open>/ws/DEPS\<close>. The remote of \<open>lib\<close>
  offers one commit that the local repository lacks, and the tool reports a fetch on
  standard error. The tools answer as they do for a repository whose \<open>main\<close> is two
  commits ahead of the tag \<open>v1\<close>; they fail on the reference \<open>nosuchref\<close> and on the URL
  \<open>https://example.org/gone.git\<close>, and can clone \<open>https://example.org/org/util.git\<close>.
\<close>

definition libPath :: string where
  "libPath = ''/ws/DEPS/lib''"

definition libModule :: JujutsuModule where
  "libModule = \<lparr>path = libPath\<rparr>"

definition demoWorld :: fake where
  "demoWorld =
     \<lparr>dirs = [''/ws'', ''/ws/DEPS'', ''/ws/DEPS/lib'', ''/ws/DEPS/lib/src''],
      files = [''/ws/MODULE'', ''/ws/DEPS/lib/MODULE''],
      stuck = [],
      cwd = ''/ws/DEPS/lib/src'',
      localCommits = [''77b0d4aa'', ''3f2a9c1e''],
      remoteCommits = [''77b0d4aa'', ''3f2a9c1e'', ''c4d810e2''],
      reportOnStdout = False,
      answers =
        [((''jj'', [''git'', ''root'']), (''/ws/DEPS/lib/.jj/repo/store/git\<newline>'', [], None)),
         ((''jj'', [''git'', ''clone'', ''https://example.org/org/util.git'', ''/ws/DEPS/util'']),
            ([], ''Fetching into new repo\<newline>'', None)),
         ((''jj'', [''git'', ''clone'', ''https://example.org/org/util.git'', ''util'']),
            ([], ''Fetching into new repo\<newline>'', None)),
         ((''jj'', [''git'', ''clone'', ''https://example.org/gone.git'', ''/ws/DEPS/gone'']),
            ([], ''Error: repository not found\<newline>'', Some (GoError ''exit status 1''))),
         ((''git'', [''config'', ''--get'', ''remote.origin.url'']),
            (''https://example.org/org/lib.git\<newline>'', [], None)),
         ((''git'', [''rev-list'', ''-n'', ''1'', ''HEAD'']),
            (''3f2a9c1e\<newline>'', [], None)),
         ((''git'', [''rev-list'', ''-n'', ''1'', ''nosuchref'']),
            ([], ''fatal: ambiguous argument 'nosuchref': unknown revision\<newline>'', Some (GoError ''exit status 128''))),
         ((''git'', [''rev-list'', ''v1..main'']),
            (''3f2a9c1e\<newline>77b0d4aa\<newline>'', [], None)),
         ((''git'', [''rev-list'', ''main..main'']), ([], [], None))]\<rparr>"

definition demoState :: "fake state" where
  "demoState = \<lparr>world = demoWorld, trace = []\<rparr>"

text \<open>
  Four more worlds. \<open>stuckWorld\<close> is \<open>demoWorld\<close> where the operating system refuses to
  remove \<open>/ws/DEPS/gone\<close>. \<open>idleWorld\<close> is \<open>demoWorld\<close> where the remote offers nothing
  that the local repository lacks, and the tool reports a fetch on standard output. In
  \<open>strayWorld\<close> the working directory is \<open>/tmp\<close> and there is no module anywhere. In
  \<open>nestedWorld\<close> the module \<open>/a/b\<close> lies inside the module \<open>/a\<close>, with no \<open>DEPS\<close>
  directory between them, and the working directory is \<open>/a/b\<close>.
\<close>

definition stuckWorld :: fake where
  "stuckWorld = demoWorld\<lparr>stuck := [''/ws/DEPS/gone'']\<rparr>"

definition stuckState :: "fake state" where
  "stuckState = \<lparr>world = stuckWorld, trace = []\<rparr>"



definition strayWorld :: fake where
  "strayWorld =
     \<lparr>dirs = [''/'', ''/tmp''], files = [], stuck = [], cwd = ''/tmp'', localCommits = [],
      remoteCommits = [], reportOnStdout = False, answers = []\<rparr>"

definition nestedWorld :: fake where
  "nestedWorld =
     \<lparr>dirs = [''/'', ''/a'', ''/a/b''], files = [''/a/MODULE'', ''/a/b/MODULE''], stuck = [],
      cwd = ''/a/b'', localCommits = [], remoteCommits = [], reportOnStdout = False, answers = []\<rparr>"

section \<open>Facts about package strings\<close>

lemma strings_HasPrefix_iff_prefix: "strings_HasPrefix s pre \<longleftrightarrow> prefix pre s"
proof
  assume "strings_HasPrefix s pre"
  then have "pre = take (length pre) s"
    by (simp add: strings_HasPrefix_def)
  then show "prefix pre s"
    by (metis take_is_prefix)
next
  assume "prefix pre s"
  then obtain r where "s = pre @ r"
    by (auto simp: prefix_def)
  then show "strings_HasPrefix s pre"
    by (simp add: strings_HasPrefix_def)
qed

lemma TrimSuffix_newline_restore:
  "strings_HasSuffix s ''\<newline>'' \<Longrightarrow> strings_TrimSuffix s ''\<newline>'' @ ''\<newline>'' = s"
proof -
  assume h: "strings_HasSuffix s ''\<newline>''"
  then have "drop (length s - 1) s = ''\<newline>''"
    by (simp add: strings_HasSuffix_def)
  then have "take (length s - 1) s @ ''\<newline>'' = s"
    by (metis append_take_drop_id)
  with h show ?thesis
    by (simp add: strings_TrimSuffix_def)
qed

lemma TrimSuffix_newline_sublist:
  "sublist s (pre @ strings_TrimSuffix s ''\<newline>'' @ ''\<newline>'' @ post)"
proof (cases "strings_HasSuffix s ''\<newline>''")
  case True
  then have "pre @ strings_TrimSuffix s ''\<newline>'' @ ''\<newline>'' @ post = pre @ s @ post"
    using TrimSuffix_newline_restore [of s] by (metis append_assoc)
  then show ?thesis
    unfolding sublist_def by blast
next
  case False
  then have "pre @ strings_TrimSuffix s ''\<newline>'' @ ''\<newline>'' @ post = pre @ s @ (''\<newline>'' @ post)"
    by (simp add: strings_TrimSuffix_def)
  then show ?thesis
    unfolding sublist_def by blast
qed

text \<open>Splitting into lines and joining them.\<close>

lemma strings_Split_not_Nil: "strings_Split s sep \<noteq> []"
  by (induction s) auto

lemma strings_Split_no_sep: "sep \<notin> set a \<Longrightarrow> strings_Split a sep = [a]"
  by (induction a) auto

lemma strings_Split_append_sep:
  "sep \<notin> set a \<Longrightarrow> strings_Split (a @ sep # rest) sep = a # strings_Split rest sep"
  by (induction a) auto

lemma strings_Join_Cons:
  "es \<noteq> [] \<Longrightarrow> strings_Join (e # es) sep = e @ sep @ strings_Join es sep"
  by (cases es) auto

lemma strings_TrimSuffix_append: "strings_TrimSuffix (a @ suf) suf = a"
  by (simp add: strings_TrimSuffix_def strings_HasSuffix_def)

lemma strings_Join_snoc:
  "strings_Join (ds @ [d]) sep = concat (map (\<lambda>c. c @ sep) ds) @ d"
  by (induction ds) (auto simp: strings_Join_Cons)

text \<open>Lines that end with a line feed each, less the last line feed, are the lines joined.\<close>

lemma lines_TrimSuffix:
  "strings_TrimSuffix (concat (map (\<lambda>c. c @ ''\<newline>'') cs)) ''\<newline>'' = strings_Join cs ''\<newline>''"
proof (cases "cs = []")
  case True
  then show ?thesis
    by (simp add: strings_TrimSuffix_def strings_HasSuffix_def)
next
  case False
  then obtain ds d where cs: "cs = ds @ [d]"
    by (metis append_butlast_last_id)
  have "concat (map (\<lambda>c. c @ ''\<newline>'') cs) = (concat (map (\<lambda>c. c @ ''\<newline>'') ds) @ d) @ ''\<newline>''"
    by (simp add: cs)
  then show ?thesis
    by (simp only: strings_TrimSuffix_append cs strings_Join_snoc)
qed

lemma strings_Split_Join:
  assumes "cs \<noteq> []" and "\<forall>c\<in>set cs. sep \<notin> set c"
  shows "strings_Split (strings_Join cs [sep]) sep = cs"
  using assms
proof (induction cs)
  case Nil
  then show ?case
    by simp
next
  case (Cons c cs)
  show ?case
  proof (cases "cs = []")
    case True
    with Cons.prems show ?thesis
      by (simp add: strings_Split_no_sep)
  next
    case False
    with Cons show ?thesis
      by (simp add: strings_Join_Cons strings_Split_append_sep)
  qed
qed

text \<open>The loop of \<open>GetCommitsBetweenRefs\<close> keeps the lines that are not blank, trimmed, in order.\<close>

lemma collectLines_filter:
  "collectLines result lines = result @ filter (\<lambda>l. l \<noteq> []) (map strings_TrimSpace lines)"
  by (induction lines arbitrary: result) auto

text \<open>A commit identifier has no white space at either end, and no line feed.\<close>

lemma spaceRunes_not_hex:
  "\<forall>r\<in>set spaceRunes. r \<noteq> [] \<and> hd r \<notin> set ''0123456789abcdef'' \<and> last r \<notin> set ''0123456789abcdef''"
  by (simp add: spaceRunes_def)

lemma leadingSpace_hex:
  assumes "c \<in> set ''0123456789abcdef''"
  shows "leadingSpace (c # cs) = 0"
proof -
  have "\<not> prefix r (c # cs)" if "r \<in> set spaceRunes" for r
  proof
    assume "prefix r (c # cs)"
    moreover from that spaceRunes_not_hex have "r \<noteq> []" and "hd r \<notin> set ''0123456789abcdef''"
      by blast+
    ultimately have "hd r = c"
      by (cases r) auto
    with assms \<open>hd r \<notin> set ''0123456789abcdef''\<close> show False
      by blast
  qed
  then have "filter (\<lambda>r. prefix r (c # cs)) spaceRunes = []"
    by (simp add: filter_empty_conv)
  then show ?thesis
    by (simp add: leadingSpace_def)
qed

lemma trailingSpace_hex:
  assumes "c \<in> set ''0123456789abcdef''"
  shows "trailingSpace (cs @ [c]) = 0"
proof -
  have "\<not> suffix r (cs @ [c])" if "r \<in> set spaceRunes" for r
  proof
    assume "suffix r (cs @ [c])"
    moreover from that spaceRunes_not_hex have "r \<noteq> []" and "last r \<notin> set ''0123456789abcdef''"
      by blast+
    ultimately have "last r = c"
      by (metis last_snoc suffix_def last_appendR)
    with assms \<open>last r \<notin> set ''0123456789abcdef''\<close> show False
      by blast
  qed
  then have "filter (\<lambda>r. suffix r (cs @ [c])) spaceRunes = []"
    by (simp add: filter_empty_conv)
  then show ?thesis
    by (simp add: trailingSpace_def)
qed

lemma strings_TrimSpace_commit: "isCommitId c \<Longrightarrow> strings_TrimSpace c = c"
proof -
  assume c: "isCommitId c"
  then have ne: "c \<noteq> []" and hex: "set c \<subseteq> set ''0123456789abcdef''"
    unfolding isCommitId_def by blast+
  from ne have "hd c \<in> set c" and "last c \<in> set c"
    by simp_all
  with hex have h: "hd c \<in> set ''0123456789abcdef''" and l: "last c \<in> set ''0123456789abcdef''"
    by blast+
  have "leadingSpace (hd c # tl c) = 0"
    by (rule leadingSpace_hex [OF h])
  then have "trimLeftSpace (hd c # tl c) = hd c # tl c"
    by simp
  with ne have left: "trimLeftSpace c = c"
    by simp
  have "trailingSpace (butlast c @ [last c]) = 0"
    by (rule trailingSpace_hex [OF l])
  with ne have "trailingSpace c = 0"
    by simp
  then have "trimRightSpace c = c"
    by (subst trimRightSpace.simps) simp
  with left show ?thesis
    by (simp add: strings_TrimSpace_def)
qed

lemma commit_no_newline: "isCommitId c \<Longrightarrow> CHR 0x0A \<notin> set c"
  unfolding isCommitId_def by auto

lemma commit_lines:
  assumes "\<forall>c\<in>set cs. isCommitId c"
  shows "filter (\<lambda>l. l \<noteq> []) (map strings_TrimSpace (strings_Split (strings_Join cs ''\<newline>'') CHR 0x0A)) = cs"
proof (cases "cs = []")
  case True
  then show ?thesis
    by (simp add: strings_TrimSpace_def trimRightSpace.simps)
next
  case False
  with assms have "strings_Split (strings_Join cs [CHR 0x0A]) CHR 0x0A = cs"
    by (intro strings_Split_Join) (auto simp: commit_no_newline)
  moreover have "map strings_TrimSpace cs = cs"
    using assms by (simp add: strings_TrimSpace_commit map_idI)
  moreover have "filter (\<lambda>l. l \<noteq> []) cs = cs"
    using assms by (auto simp: isCommitId_def filter_id_conv)
  ultimately show ?thesis
    by simp
qed

section \<open>Facts about package path: the last element\<close>

lemma LastIndexByte_absent: "c \<notin> set xs \<Longrightarrow> LastIndexByte xs c = - 1"
  by (induction xs) (auto simp: Let_def)

lemma LastIndexByte_lower: "- 1 \<le> LastIndexByte xs c"
  by (induction xs) (auto simp: Let_def)

lemma LastIndexByte_present: "c \<in> set xs \<Longrightarrow> 0 \<le> LastIndexByte xs c"
  by (induction xs) (auto simp: Let_def)

lemma LastIndexByte_append_absent:
  "c \<notin> set ys \<Longrightarrow> LastIndexByte (xs @ ys) c = LastIndexByte xs c"
  by (induction xs) (auto simp: LastIndexByte_absent Let_def)

lemma LastIndexByte_snoc: "LastIndexByte (xs @ [c]) c = int (length xs)"
  by (induction xs) (auto simp: Let_def)

lemma LastIndexByte_upper: "LastIndexByte xs c < int (length xs)"
  by (induction xs) (auto simp: Let_def)

text \<open>
  The path up to its last slash and the element after it, when the element has no slash.
\<close>

lemma LastIndexByte_last_element:
  assumes "CHR ''/'' \<notin> set b" and "pre = [] \<or> last pre = CHR ''/''"
  shows "nat (LastIndexByte (pre @ b) CHR ''/'' + 1) = length pre"
proof (cases "pre = []")
  case True
  with assms show ?thesis
    by (simp add: LastIndexByte_absent)
next
  case False
  with assms obtain q where q: "pre = q @ [CHR ''/'']"
    by (metis append_butlast_last_id)
  have "LastIndexByte ((q @ [CHR ''/'']) @ b) CHR ''/'' = LastIndexByte (q @ [CHR ''/'']) CHR ''/''"
    by (rule LastIndexByte_append_absent [OF assms(1)])
  also have "\<dots> = int (length q)"
    by (rule LastIndexByte_snoc)
  finally show ?thesis
    by (simp add: q)
qed

lemma stripSlashes_element:
  assumes "b \<noteq> []" and "last b \<noteq> CHR ''/''" and "set t \<subseteq> {CHR ''/''}"
  shows "stripSlashes (pre @ b @ t) = pre @ b"
proof -
  have t: "dropWhile (\<lambda>x. x = CHR ''/'') (rev t @ ys) = dropWhile (\<lambda>x. x = CHR ''/'') ys" for ys
    using assms(3) by (intro dropWhile_append2) auto
  obtain x xs where r: "rev b = x # xs"
    using assms(1) by (cases "rev b") auto
  then have "x = last b"
    by (metis last_rev list.sel(1) rev_rev_ident)
  then have "dropWhile (\<lambda>x. x = CHR ''/'') (rev b @ rev pre) = rev b @ rev pre"
    using assms(2) by (simp add: r)
  then show ?thesis
    by (simp add: stripSlashes_def t)
qed

lemma path_Base_last_element:
  assumes "b \<noteq> []" and "CHR ''/'' \<notin> set b" and "set t \<subseteq> {CHR ''/''}"
    and "pre = [] \<or> last pre = CHR ''/''"
  shows "path_Base (pre @ b @ t) = b"
proof -
  have "last b \<noteq> CHR ''/''"
    using assms(1,2) last_in_set by metis
  then have s: "stripSlashes (pre @ b @ t) = pre @ b"
    using assms by (intro stripSlashes_element)
  show ?thesis
    using assms(1) by (simp add: path_Base_def s LastIndexByte_last_element [OF assms(2,4)])
qed

section \<open>Facts about package path: cleaning a rooted path\<close>

lemma backtrack_take:
  "dotdot < length out \<Longrightarrow>
     \<exists>n. dotdot \<le> n \<and> n < length out \<and> backtrack out dotdot = take n out"
proof (induction out dotdot rule: backtrack.induct)
  case (1 out dotdot)
  show ?case
  proof (cases "dotdot < length out - 1 \<and> last out \<noteq> CHR ''/''")
    case True
    then have "dotdot < length (butlast out)"
      by simp
    with "1.IH" True obtain n where n: "dotdot \<le> n" "n < length (butlast out)"
      "backtrack (butlast out) dotdot = take n (butlast out)"
      by blast
    then have "take n (butlast out) = take n out"
      by (simp add: take_butlast)
    with n True show ?thesis
      by (subst backtrack.simps) (auto intro!: exI [of _ n])
  next
    case False
    with "1.prems" have "dotdot \<le> length out - 1 \<and> length out - 1 < length out \<and>
        backtrack out dotdot = take (length out - 1) out"
      by (subst backtrack.simps) (auto simp: butlast_conv_take)
    then show ?thesis
      by blast
  qed
qed

lemma dropWhile_slash: "dropWhile (\<lambda>x. x \<noteq> CHR ''/'') cs = [] \<or> hd (dropWhile (\<lambda>x. x \<noteq> CHR ''/'') cs) = CHR ''/''"
  using hd_dropWhile [of "\<lambda>x. x \<noteq> CHR ''/''" cs] by auto

lemma length_takeWhile_dropWhile:
  "length (takeWhile P cs) + length (dropWhile P cs) = length cs"
  by (metis length_append takeWhile_dropWhile_id)

text \<open>The branches of the loop, one equation each.\<close>

lemma cleanLoop_slash:
  "cleanLoop rooted (CHR ''/'' # cs) out dotdot = cleanLoop rooted cs out dotdot"
  by (simp add: cleanLoop.simps(2))

lemma cleanLoop_dot:
  "cs = [] \<or> hd cs = CHR ''/'' \<Longrightarrow>
     cleanLoop rooted (CHR ''.'' # cs) out dotdot = cleanLoop rooted cs out dotdot"
  by (simp add: cleanLoop.simps(2))

lemma cleanLoop_dotdot_back:
  "cs = [] \<or> hd cs = CHR ''/'' \<Longrightarrow> dotdot < length out \<Longrightarrow>
     cleanLoop rooted (CHR ''.'' # CHR ''.'' # cs) out dotdot = cleanLoop rooted cs (backtrack out dotdot) dotdot"
  by (simp add: cleanLoop.simps(2))

lemma cleanLoop_dotdot_top:
  "cs = [] \<or> hd cs = CHR ''/'' \<Longrightarrow> \<not> dotdot < length out \<Longrightarrow>
     cleanLoop True (CHR ''.'' # CHR ''.'' # cs) out dotdot = cleanLoop True cs out dotdot"
  by (simp add: cleanLoop.simps(2))

lemma cleanLoop_elem:
  assumes a: "c \<noteq> CHR ''/''"
    and b: "\<not> (c = CHR ''.'' \<and> (cs = [] \<or> hd cs = CHR ''/''))"
    and d: "\<not> (c = CHR ''.'' \<and> hd cs = CHR ''.'' \<and> (tl cs = [] \<or> hd (tl cs) = CHR ''/''))"
  shows "cleanLoop rooted (c # cs) out dotdot =
           cleanLoop rooted (dropWhile (\<lambda>x. x \<noteq> CHR ''/'') cs)
             ((if rooted \<and> length out \<noteq> 1 \<or> \<not> rooted \<and> length out \<noteq> 0 then out @ ''/'' else out)
                @ c # takeWhile (\<lambda>x. x \<noteq> CHR ''/'') cs)
             dotdot"
  by (subst cleanLoop.simps(2)) (simp only: a b d if_False)

text \<open>
  The loop on a rooted path: the buffer starts with the slash and \<open>dotdot\<close> is 1. The
  result keeps the leading slash.
\<close>

lemma cleanLoop_rooted:
  "rooted \<Longrightarrow> dotdot = 1 \<Longrightarrow> out \<noteq> [] \<Longrightarrow> hd out = CHR ''/'' \<Longrightarrow>
     cleanLoop rooted rest out dotdot \<noteq> [] \<and> hd (cleanLoop rooted rest out dotdot) = CHR ''/''"
proof (induction rooted rest out dotdot rule: cleanLoop.induct)
  case (1 rooted out dotdot)
  then show ?case
    by simp
next
  case (2 rooted c cs out dotdot)
  let ?res = "cleanLoop rooted (c # cs) out dotdot"
  note r = \<open>rooted\<close>
  consider (slash) "c = CHR ''/''"
    | (dot) "c \<noteq> CHR ''/''" "c = CHR ''.'' \<and> (cs = [] \<or> hd cs = CHR ''/'')"
    | (dotdot) "c \<noteq> CHR ''/''" "\<not> (c = CHR ''.'' \<and> (cs = [] \<or> hd cs = CHR ''/''))"
        "c = CHR ''.'' \<and> hd cs = CHR ''.'' \<and> (tl cs = [] \<or> hd (tl cs) = CHR ''/'')"
    | (elem) "c \<noteq> CHR ''/''" "\<not> (c = CHR ''.'' \<and> (cs = [] \<or> hd cs = CHR ''/''))"
        "\<not> (c = CHR ''.'' \<and> hd cs = CHR ''.'' \<and> (tl cs = [] \<or> hd (tl cs) = CHR ''/''))"
    by blast
  then show ?case
  proof cases
    case slash
    then have "?res = cleanLoop rooted cs out dotdot"
      by (simp add: cleanLoop_slash)
    with "2.IH"(1) [OF slash] "2.prems" show ?thesis
      by simp
  next
    case dot
    then have "?res = cleanLoop rooted cs out dotdot"
      by (simp add: cleanLoop_dot)
    with "2.IH"(2) [OF dot] "2.prems" show ?thesis
      by simp
  next
    case dotdot
    then have cs: "cs = CHR ''.'' # tl cs"
      by (cases cs) auto
    show ?thesis
    proof (cases "dotdot < length out")
      case True
      from backtrack_take [OF True] obtain n where n: "dotdot \<le> n" "n < length out"
        "backtrack out dotdot = take n out"
        by blast
      with "2.prems" have bt: "backtrack out dotdot \<noteq> []" "hd (backtrack out dotdot) = CHR ''/''"
        by (cases out; auto)+
      have "?res = cleanLoop rooted (tl cs) (backtrack out dotdot) dotdot"
        using dotdot True cleanLoop_dotdot_back [of "tl cs" dotdot out rooted] cs by metis
      with "2.IH"(3) [OF dotdot True] "2.prems" bt show ?thesis
        by simp
    next
      case False
      have "?res = cleanLoop rooted (tl cs) out dotdot"
        using dotdot False r cleanLoop_dotdot_top [of "tl cs" dotdot out] cs by metis
      with "2.IH"(5) [OF dotdot False] "2.prems" show ?thesis
        by simp
    qed
  next
    case elem
    let ?out = "(if rooted \<and> length out \<noteq> 1 \<or> \<not> rooted \<and> length out \<noteq> 0 then out @ ''/'' else out)
                  @ c # takeWhile (\<lambda>x. x \<noteq> CHR ''/'') cs"
    let ?rest = "dropWhile (\<lambda>x. x \<noteq> CHR ''/'') cs"
    have eq: "?res = cleanLoop rooted ?rest ?out dotdot"
      by (rule cleanLoop_elem [OF elem])
    have "?out \<noteq> []" and "hd ?out = CHR ''/''"
      using "2.prems" by auto
    with "2.IH"(6) [OF elem] "2.prems" eq show ?thesis
      by simp
  qed
qed

text \<open>
  The result is not longer than what was written and what is left to read, one more when
  a separator is due before the next element.
\<close>

lemma cleanLoop_length:
  "rooted \<Longrightarrow> dotdot = 1 \<Longrightarrow> 1 \<le> length out \<Longrightarrow>
     length (cleanLoop rooted rest out dotdot)
       \<le> length out + length rest + (if rest \<noteq> [] \<and> hd rest \<noteq> CHR ''/'' \<and> length out \<noteq> 1 then 1 else 0)"
proof (induction rooted rest out dotdot rule: cleanLoop.induct)
  case (1 rooted out dotdot)
  then show ?case
    by simp
next
  case (2 rooted c cs out dotdot)
  let ?res = "cleanLoop rooted (c # cs) out dotdot"
  note r = \<open>rooted\<close>
  consider (slash) "c = CHR ''/''"
    | (dot) "c \<noteq> CHR ''/''" "c = CHR ''.'' \<and> (cs = [] \<or> hd cs = CHR ''/'')"
    | (dotdot) "c \<noteq> CHR ''/''" "\<not> (c = CHR ''.'' \<and> (cs = [] \<or> hd cs = CHR ''/''))"
        "c = CHR ''.'' \<and> hd cs = CHR ''.'' \<and> (tl cs = [] \<or> hd (tl cs) = CHR ''/'')"
    | (elem) "c \<noteq> CHR ''/''" "\<not> (c = CHR ''.'' \<and> (cs = [] \<or> hd cs = CHR ''/''))"
        "\<not> (c = CHR ''.'' \<and> hd cs = CHR ''.'' \<and> (tl cs = [] \<or> hd (tl cs) = CHR ''/''))"
    by blast
  then show ?case
  proof cases
    case slash
    then have eq: "?res = cleanLoop rooted cs out dotdot"
      by (simp add: cleanLoop_slash)
    from "2.IH"(1) [OF slash] "2.prems" have "length (cleanLoop rooted cs out dotdot) \<le> length out + length cs + 1"
      by (auto split: if_splits)
    with slash eq show ?thesis
      by simp
  next
    case dot
    then have eq: "?res = cleanLoop rooted cs out dotdot"
      by (simp add: cleanLoop_dot)
    from "2.IH"(2) [OF dot] "2.prems" dot have "length (cleanLoop rooted cs out dotdot) \<le> length out + length cs"
      by (auto split: if_splits)
    with eq show ?thesis
      by simp
  next
    case dotdot
    then have cs: "cs = CHR ''.'' # tl cs"
      by (cases cs) auto
    then have len: "length cs = Suc (length (tl cs))"
      by (metis length_Cons)
    show ?thesis
    proof (cases "dotdot < length out")
      case True
      from backtrack_take [OF True] obtain n where n: "dotdot \<le> n" "n < length out"
        "backtrack out dotdot = take n out"
        by blast
      with "2.prems" have bt: "1 \<le> length (backtrack out dotdot)" "length (backtrack out dotdot) \<le> length out"
        by simp_all
      have eq: "?res = cleanLoop rooted (tl cs) (backtrack out dotdot) dotdot"
        using dotdot True cleanLoop_dotdot_back [of "tl cs" dotdot out rooted] cs by metis
      from "2.IH"(3) [OF dotdot True] "2.prems" bt dotdot
      have "length (cleanLoop rooted (tl cs) (backtrack out dotdot) dotdot)
              \<le> length (backtrack out dotdot) + length (tl cs)"
        by (auto split: if_splits)
      with bt eq len show ?thesis
        by simp
    next
      case False
      have eq: "?res = cleanLoop rooted (tl cs) out dotdot"
        using dotdot False r cleanLoop_dotdot_top [of "tl cs" dotdot out] cs by metis
      from "2.IH"(5) [OF dotdot False] "2.prems" dotdot
      have "length (cleanLoop rooted (tl cs) out dotdot) \<le> length out + length (tl cs)"
        by (auto split: if_splits)
      with eq len show ?thesis
        by simp
    qed
  next
    case elem
    let ?out = "(if rooted \<and> length out \<noteq> 1 \<or> \<not> rooted \<and> length out \<noteq> 0 then out @ ''/'' else out)
                  @ c # takeWhile (\<lambda>x. x \<noteq> CHR ''/'') cs"
    let ?rest = "dropWhile (\<lambda>x. x \<noteq> CHR ''/'') cs"
    have eq: "?res = cleanLoop rooted ?rest ?out dotdot"
      by (rule cleanLoop_elem [OF elem])
    have "1 \<le> length ?out"
      by simp
    with "2.IH"(6) [OF elem] "2.prems" dropWhile_slash [of cs]
    have "length (cleanLoop rooted ?rest ?out dotdot) \<le> length ?out + length ?rest"
      by (auto split: if_splits)
    moreover have "length ?out + length ?rest = length out + length (c # cs) + (if length out \<noteq> 1 then 1 else 0)"
      using r length_takeWhile_dropWhile [of "\<lambda>x. x \<noteq> CHR ''/''" cs] by simp
    ultimately show ?thesis
      using elem(1) eq by simp
  qed
qed

lemma last_dropWhile: "dropWhile P xs \<noteq> [] \<Longrightarrow> last (dropWhile P xs) = last xs"
  by (metis last_appendR takeWhile_dropWhile_id)

text \<open>A slash at the end of what is read is dropped, so the bound is not reached.\<close>

lemma cleanLoop_length_strict:
  "rooted \<Longrightarrow> dotdot = 1 \<Longrightarrow> 1 \<le> length out \<Longrightarrow> rest \<noteq> [] \<Longrightarrow> last rest = CHR ''/'' \<Longrightarrow>
     length (cleanLoop rooted rest out dotdot)
       < length out + length rest + (if hd rest \<noteq> CHR ''/'' \<and> length out \<noteq> 1 then 1 else 0)"
proof (induction rooted rest out dotdot rule: cleanLoop.induct)
  case (1 rooted out dotdot)
  then show ?case
    by simp
next
  case (2 rooted c cs out dotdot)
  let ?res = "cleanLoop rooted (c # cs) out dotdot"
  note r = \<open>rooted\<close>
  note l = \<open>last (c # cs) = CHR ''/''\<close>
  consider (slash) "c = CHR ''/''"
    | (dot) "c \<noteq> CHR ''/''" "c = CHR ''.'' \<and> (cs = [] \<or> hd cs = CHR ''/'')"
    | (dotdot) "c \<noteq> CHR ''/''" "\<not> (c = CHR ''.'' \<and> (cs = [] \<or> hd cs = CHR ''/''))"
        "c = CHR ''.'' \<and> hd cs = CHR ''.'' \<and> (tl cs = [] \<or> hd (tl cs) = CHR ''/'')"
    | (elem) "c \<noteq> CHR ''/''" "\<not> (c = CHR ''.'' \<and> (cs = [] \<or> hd cs = CHR ''/''))"
        "\<not> (c = CHR ''.'' \<and> hd cs = CHR ''.'' \<and> (tl cs = [] \<or> hd (tl cs) = CHR ''/''))"
    by blast
  then show ?case
  proof cases
    case slash
    then have eq: "?res = cleanLoop rooted cs out dotdot"
      by (simp add: cleanLoop_slash)
    show ?thesis
    proof (cases "cs = []")
      case True
      with eq slash show ?thesis
        by simp
    next
      case False
      with l have "last cs = CHR ''/''"
        by simp
      with "2.IH"(1) [OF slash] "2.prems" False
      have "length (cleanLoop rooted cs out dotdot) < length out + length cs + 1"
        by (auto split: if_splits)
      with slash eq show ?thesis
        by simp
    qed
  next
    case dot
    then have eq: "?res = cleanLoop rooted cs out dotdot"
      by (simp add: cleanLoop_dot)
    from dot l have cs: "cs \<noteq> []" "hd cs = CHR ''/''" "last cs = CHR ''/''"
      by (auto split: if_splits)
    with "2.IH"(2) [OF dot] "2.prems"
    have "length (cleanLoop rooted cs out dotdot) < length out + length cs"
      by simp
    with eq show ?thesis
      by simp
  next
    case dotdot
    then have cs: "cs = CHR ''.'' # tl cs"
      by (cases cs) auto
    then have len: "length cs = Suc (length (tl cs))"
      by (metis length_Cons)
    from l have "last (c # CHR ''.'' # tl cs) = CHR ''/''"
      using cs by simp
    then have t1: "tl cs \<noteq> []" and t3: "last (tl cs) = CHR ''/''"
      using dotdot(1) by (auto split: if_splits)
    with dotdot(3) have t2: "hd (tl cs) = CHR ''/''"
      by simp
    note t = t1 t2 t3
    show ?thesis
    proof (cases "dotdot < length out")
      case True
      from backtrack_take [OF True] obtain n where n: "dotdot \<le> n" "n < length out"
        "backtrack out dotdot = take n out"
        by blast
      with "2.prems" have bt: "1 \<le> length (backtrack out dotdot)" "length (backtrack out dotdot) \<le> length out"
        by simp_all
      have eq: "?res = cleanLoop rooted (tl cs) (backtrack out dotdot) dotdot"
        using dotdot True cleanLoop_dotdot_back [of "tl cs" dotdot out rooted] cs by metis
      from "2.IH"(3) [OF dotdot True] "2.prems" bt t
      have "length (cleanLoop rooted (tl cs) (backtrack out dotdot) dotdot)
              < length (backtrack out dotdot) + length (tl cs)"
        by simp
      with bt eq len show ?thesis
        by simp
    next
      case False
      have eq: "?res = cleanLoop rooted (tl cs) out dotdot"
        using dotdot False r cleanLoop_dotdot_top [of "tl cs" dotdot out] cs by metis
      from "2.IH"(5) [OF dotdot False] "2.prems" t
      have "length (cleanLoop rooted (tl cs) out dotdot) < length out + length (tl cs)"
        by simp
      with eq len show ?thesis
        by simp
    qed
  next
    case elem
    let ?out = "(if rooted \<and> length out \<noteq> 1 \<or> \<not> rooted \<and> length out \<noteq> 0 then out @ ''/'' else out)
                  @ c # takeWhile (\<lambda>x. x \<noteq> CHR ''/'') cs"
    let ?rest = "dropWhile (\<lambda>x. x \<noteq> CHR ''/'') cs"
    have eq: "?res = cleanLoop rooted ?rest ?out dotdot"
      by (rule cleanLoop_elem [OF elem])
    from l elem(1) have cs: "cs \<noteq> []" "last cs = CHR ''/''"
      by (auto split: if_splits)
    then have "CHR ''/'' \<in> set cs"
      using last_in_set by metis
    then have ne: "?rest \<noteq> []"
      by (simp add: dropWhile_eq_Nil_conv)
    from cs last_dropWhile [OF ne] have "last ?rest = CHR ''/''"
      by simp
    moreover from ne dropWhile_slash [of cs] have "hd ?rest = CHR ''/''"
      by blast
    ultimately have "last ?rest = CHR ''/''" "hd ?rest = CHR ''/''"
      by blast+
    with "2.IH"(6) [OF elem] "2.prems" ne
    have "length (cleanLoop rooted ?rest ?out dotdot) < length ?out + length ?rest"
      by simp
    moreover have "length ?out + length ?rest = length out + length (c # cs) + (if length out \<noteq> 1 then 1 else 0)"
      using r length_takeWhile_dropWhile [of "\<lambda>x. x \<noteq> CHR ''/''" cs] by simp
    ultimately show ?thesis
      using elem(1) eq by simp
  qed
qed

text \<open>Cleaning an absolute path: absolute again and no longer; shorter after a final slash.\<close>

lemma path_IsAbs_Cons: "path_IsAbs p \<longleftrightarrow> (\<exists>rest. p = CHR ''/'' # rest)"
  by (cases p) (auto simp: path_IsAbs_def)

lemma path_Clean_abs:
  assumes "path_IsAbs p"
  shows "path_IsAbs (path_Clean p)"
    and "length (path_Clean p) \<le> length p"
    and "2 \<le> length p \<Longrightarrow> last p = CHR ''/'' \<Longrightarrow> length (path_Clean p) < length p"
proof -
  from assms obtain rest where p: "p = CHR ''/'' # rest"
    by (auto simp: path_IsAbs_Cons)
  then have c: "path_Clean p = cleanLoop True rest ''/'' 1"
    by (simp add: path_Clean_def)
  from cleanLoop_rooted [of True 1 "''/''" rest] obtain t where "cleanLoop True rest ''/'' 1 = CHR ''/'' # t"
    by (cases "cleanLoop True rest ''/'' 1") auto
  with c show "path_IsAbs (path_Clean p)"
    by (simp add: path_IsAbs_Cons)
  from cleanLoop_length [of True 1 "''/''" rest] c p show "length (path_Clean p) \<le> length p"
    by simp
  show "length (path_Clean p) < length p" if "2 \<le> length p" and "last p = CHR ''/''"
  proof -
    from that(1) p have ne: "rest \<noteq> []"
      by (cases rest) auto
    with that(2) p have "last rest = CHR ''/''"
      by simp
    note ne this
    from cleanLoop_length_strict [OF _ _ _ this, of True 1 "''/''"] c p show ?thesis
      by simp
  qed
qed

text \<open>The directory of an absolute path: absolute, and shorter unless the path is the root.\<close>

lemma LastIndexByte_nth:
  "0 \<le> LastIndexByte xs c \<Longrightarrow> xs ! nat (LastIndexByte xs c) = c"
proof (induction xs)
  case Nil
  then show ?case
    by simp
next
  case (Cons x xs)
  show ?case
  proof (cases "0 \<le> LastIndexByte xs c")
    case True
    with Cons.IH have "xs ! nat (LastIndexByte xs c) = c"
      by simp
    with True show ?thesis
      by (simp add: nat_add_distrib Let_def)
  next
    case False
    with Cons.prems show ?thesis
      by (auto simp: Let_def split: if_splits)
  qed
qed

lemma path_Dir_abs:
  assumes "path_IsAbs p"
  shows "path_IsAbs (path_Dir p)"
    and "p \<noteq> ''/'' \<Longrightarrow> length (path_Dir p) < length p"
proof -
  let ?i = "LastIndexByte p CHR ''/''"
  let ?dir = "take (nat (?i + 1)) p"
  from assms obtain rest where p: "p = CHR ''/'' # rest"
    by (auto simp: path_IsAbs_Cons)
  then have i0: "0 \<le> ?i"
    by (intro LastIndexByte_present) simp
  have i1: "?i < int (length p)"
    by (rule LastIndexByte_upper)
  from i0 i1 have k: "1 \<le> nat (?i + 1)" "nat (?i + 1) \<le> length p"
    by simp_all
  have dir: "path_Dir p = path_Clean ?dir"
    by (simp add: path_Dir_def path_Split_def)
  from k p have abs: "path_IsAbs ?dir"
    by (cases "nat (?i + 1)") (auto simp: path_IsAbs_def)
  from path_Clean_abs(1) [OF abs] dir show "path_IsAbs (path_Dir p)"
    by simp
  have "?dir ! nat ?i = p ! nat ?i"
    using i0 by simp
  with LastIndexByte_nth [OF i0] have "?dir ! nat ?i = CHR ''/''"
    by simp
  moreover have "length ?dir = nat ?i + 1"
    using k i0 by (simp add: nat_add_distrib)
  ultimately have last: "last ?dir = CHR ''/''"
    by (metis add_diff_cancel_right' last_conv_nth length_0_conv add_is_0 zero_neq_one)
  show "length (path_Dir p) < length p" if "p \<noteq> ''/''"
  proof (cases "2 \<le> length ?dir")
    case True
    from path_Clean_abs(3) [OF abs True last] k dir show ?thesis
      by simp
  next
    case False
    from that p have "2 \<le> length p"
      by (cases rest) auto
    moreover have "length (path_Clean ?dir) \<le> length ?dir"
      by (rule path_Clean_abs(2) [OF abs])
    with False have "length (path_Clean ?dir) \<le> 1"
      by linarith
    with dir have "length (path_Dir p) \<le> 1"
      by simp
    ultimately show ?thesis
      by simp
  qed
qed

text \<open>The definitions that evaluate a path.\<close>

lemmas path_eval = path_Join_def path_Clean_def cleanLoop.simps(2) backtrack.simps path_Dir_def
  path_Split_def path_Base_def stripSlashes_def

section \<open>Facts about the formatted messages\<close>

lemmas eval_defs = strings_TrimSuffix_def strings_HasSuffix_def

lemma Sprintf_failed_jj:
  "Sprintf ''Failed to run jj command 'jj %s':\<newline>%s\<newline>%s\<newline>%s\<newline>'' [Str a, Str b, Str c, Err e]
     = Some (''Failed to run jj command 'jj '' @ a @ ''':\<newline>'' @ b @ ''\<newline>'' @ c @ ''\<newline>'' @ operand (Err e) @ ''\<newline>'')"
  by simp

lemma Sprintf_failed_git:
  "Sprintf ''Failed to run git command 'git %s':\<newline>%s\<newline>%s\<newline>%s\<newline>'' [Str a, Str b, Str c, Err e]
     = Some (''Failed to run git command 'git '' @ a @ ''':\<newline>'' @ b @ ''\<newline>'' @ c @ ''\<newline>'' @ operand (Err e) @ ''\<newline>'')"
  by simp

lemma jj_message_has_stderr:
  "\<exists>msg. Sprintf ''Failed to run jj command 'jj %s':\<newline>%s\<newline>%s\<newline>%s\<newline>''
            [Str a, Str (strings_TrimSuffix e ''\<newline>''), Str c, Err err] = Some msg \<and> sublist e msg"
proof -
  let ?pre = "''Failed to run jj command 'jj '' @ a @ ''':\<newline>''"
  let ?post = "c @ ''\<newline>'' @ operand (Err err) @ ''\<newline>''"
  have "Sprintf ''Failed to run jj command 'jj %s':\<newline>%s\<newline>%s\<newline>%s\<newline>''
            [Str a, Str (strings_TrimSuffix e ''\<newline>''), Str c, Err err]
          = Some (?pre @ strings_TrimSuffix e ''\<newline>'' @ ''\<newline>'' @ ?post)"
    unfolding Sprintf_failed_jj by simp
  with TrimSuffix_newline_sublist [of e ?pre ?post] show ?thesis
    by (intro exI conjI)
qed

lemma git_message_has_stderr:
  "\<exists>msg. Sprintf ''Failed to run git command 'git %s':\<newline>%s\<newline>%s\<newline>%s\<newline>''
            [Str a, Str (strings_TrimSuffix e ''\<newline>''), Str c, Err err] = Some msg \<and> sublist e msg"
proof -
  let ?pre = "''Failed to run git command 'git '' @ a @ ''':\<newline>''"
  let ?post = "c @ ''\<newline>'' @ operand (Err err) @ ''\<newline>''"
  have "Sprintf ''Failed to run git command 'git %s':\<newline>%s\<newline>%s\<newline>%s\<newline>''
            [Str a, Str (strings_TrimSuffix e ''\<newline>''), Str c, Err err]
          = Some (?pre @ strings_TrimSuffix e ''\<newline>'' @ ''\<newline>'' @ ?post)"
    unfolding Sprintf_failed_git by simp
  with TrimSuffix_newline_sublist [of e ?pre ?post] show ?thesis
    by (intro exI conjI)
qed

section \<open>Facts about the command runners\<close>

text \<open>What the runners do, in terms of the subprocess results.\<close>

lemma tryRunJjCommand_run:
  assumes "cmd_Run S ''jj'' args (path m) (world st) = ((out, errout, r), w')"
  shows "tryRunJjCommand S m args st =
           ((strings_TrimSuffix out ''\<newline>'', strings_TrimSuffix errout ''\<newline>'', r),
            st\<lparr>world := w', trace := trace st @ [Debug ''Running jj command: jj %s\<newline>'' [Str (strings_Join args '' '')],
                                                 Exec ''jj'' args (path m)]\<rparr>)"
  using assms by (simp add: tryRunJjCommand_def run_def emit_def)

lemma runJjCommand_run:
  assumes "cmd_Run S ''jj'' args (path m) (world st) = ((out, errout, r), w')"
  shows "runJjCommand S m args st =
           ((case r of
               None \<Rightarrow> Return (strings_TrimSuffix out ''\<newline>'')
             | Some err \<Rightarrow>
                 Fatal ''Failed to run jj command 'jj %s':\<newline>%s\<newline>%s\<newline>%s\<newline>''
                   [Str (strings_Join args '' ''), Str (strings_TrimSuffix errout ''\<newline>''),
                    Str (strings_TrimSuffix out ''\<newline>''), Err err]),
            st\<lparr>world := w', trace := trace st @ [Debug ''Running jj command: jj %s\<newline>'' [Str (strings_Join args '' '')],
                                                 Exec ''jj'' args (path m)]\<rparr>)"
  unfolding runJjCommand_def tryRunJjCommand_run [OF assms]
  by (cases r) simp_all


lemma runGitCommand_run:
  assumes jj: "cmd_Run S ''jj'' [''git'', ''root''] (path m) (world st) = ((o1, e1, None), w1)"
    and git: "cmd_Run S ''git'' args (strings_TrimSuffix o1 ''\<newline>'') w1 = ((out, errout, r), w2)"
  shows "runGitCommand S m args st =
           ((case r of
               None \<Rightarrow> Return (strings_TrimSuffix out ''\<newline>'')
             | Some err \<Rightarrow>
                 Fatal ''Failed to run git command 'git %s':\<newline>%s\<newline>%s\<newline>%s\<newline>''
                   [Str (strings_Join args '' ''), Str (strings_TrimSuffix errout ''\<newline>''),
                    Str (strings_TrimSuffix out ''\<newline>''), Err err]),
            st\<lparr>world := w2,
               trace := trace st @
                 [Debug ''Running git command: git %s\<newline>'' [Str (strings_Join args '' '')],
                  Debug ''Running jj command: jj %s\<newline>'' [Str ''git root''],
                  Exec ''jj'' [''git'', ''root''] (path m),
                  Exec ''git'' args (strings_TrimSuffix o1 ''\<newline>'')]\<rparr>)"
proof -
  let ?st0 = "emit (Debug ''Running git command: git %s\<newline>'' [Str (strings_Join args '' '')]) st"
  have "cmd_Run S ''jj'' [''git'', ''root''] (path m) (world ?st0) = ((o1, e1, None), w1)"
    using jj by (simp add: emit_def)
  from runJjCommand_run [OF this] git show ?thesis
    by (cases r) (simp_all add: runGitCommand_def tryRunGitCommand_def locateGitRepo_def run_def emit_def)
qed

lemma runGitCommand_no_root:
  assumes jj: "cmd_Run S ''jj'' [''git'', ''root''] (path m) (world st) = ((o1, e1, Some err), w1)"
  shows "runGitCommand S m args st =
           (Fatal ''Failed to run jj command 'jj %s':\<newline>%s\<newline>%s\<newline>%s\<newline>''
              [Str ''git root'', Str (strings_TrimSuffix e1 ''\<newline>''),
               Str (strings_TrimSuffix o1 ''\<newline>''), Err err],
            st\<lparr>world := w1,
               trace := trace st @
                 [Debug ''Running git command: git %s\<newline>'' [Str (strings_Join args '' '')],
                  Debug ''Running jj command: jj %s\<newline>'' [Str ''git root''],
                  Exec ''jj'' [''git'', ''root''] (path m)]\<rparr>)"
proof -
  let ?st0 = "emit (Debug ''Running git command: git %s\<newline>'' [Str (strings_Join args '' '')]) st"
  have "cmd_Run S ''jj'' [''git'', ''root''] (path m) (world ?st0) = ((o1, e1, Some err), w1)"
    using jj by (simp add: emit_def)
  from runJjCommand_run [OF this] show ?thesis
    by (simp add: runGitCommand_def tryRunGitCommand_def locateGitRepo_def emit_def)
qed

lemma tryRunGitCommand_run:
  assumes jj: "cmd_Run S ''jj'' [''git'', ''root''] (path m) (world st) = ((o1, e1, None), w1)"
    and git: "cmd_Run S ''git'' args (strings_TrimSuffix o1 ''\<newline>'') w1 = ((out, errout, r), w2)"
  shows "tryRunGitCommand S m args st =
           (Return (strings_TrimSuffix out ''\<newline>'', strings_TrimSuffix errout ''\<newline>'', r),
            st\<lparr>world := w2,
               trace := trace st @
                 [Debug ''Running git command: git %s\<newline>'' [Str (strings_Join args '' '')],
                  Debug ''Running jj command: jj %s\<newline>'' [Str ''git root''],
                  Exec ''jj'' [''git'', ''root''] (path m),
                  Exec ''git'' args (strings_TrimSuffix o1 ''\<newline>'')]\<rparr>)"
proof -
  let ?st0 = "emit (Debug ''Running git command: git %s\<newline>'' [Str (strings_Join args '' '')]) st"
  have "cmd_Run S ''jj'' [''git'', ''root''] (path m) (world ?st0) = ((o1, e1, None), w1)"
    using jj by (simp add: emit_def)
  from runJjCommand_run [OF this] git show ?thesis
    by (simp add: tryRunGitCommand_def locateGitRepo_def run_def emit_def)
qed

section \<open>Facts about cloning\<close>

lemma clone_run:
  assumes run: "cmd_Run S ''jj'' [''git'', ''clone'', url, path m] (path m) (world st) = ((out, errout, r), w1)"
    and rm: "os_RemoveAll S (path m) w1 = (rm, w2)"
  shows "clone S m url st =
           (case r of
              None \<Rightarrow>
                (Return None,
                 st\<lparr>world := w1,
                    trace := trace st @
                      [Log ''Cloning '%s'.\<newline>'' [Str url],
                       Debug ''Running jj command: jj %s\<newline>'' [Str (strings_Join [''git'', ''clone'', url, path m] '' '')],
                       Exec ''jj'' [''git'', ''clone'', url, path m] (path m)]\<rparr>)
            | Some err \<Rightarrow>
                ((case rm of
                    None \<Rightarrow> Return (Some err)
                  | Some err' \<Rightarrow> Fatal ''Failed to remove directory '%s': %s.\<newline>'' [Str (path m), Err err']),
                 st\<lparr>world := w2,
                    trace := trace st @
                      [Log ''Cloning '%s'.\<newline>'' [Str url],
                       Debug ''Running jj command: jj %s\<newline>'' [Str (strings_Join [''git'', ''clone'', url, path m] '' '')],
                       Exec ''jj'' [''git'', ''clone'', url, path m] (path m)]\<rparr>))"
proof -
  let ?st0 = "emit (Log ''Cloning '%s'.\<newline>'' [Str url]) st"
  have "cmd_Run S ''jj'' [''git'', ''clone'', url, path m] (path m) (world ?st0) = ((out, errout, r), w1)"
    using run by (simp add: emit_def)
  from tryRunJjCommand_run [OF this] rm show ?thesis
    by (cases r; cases rm) (simp_all add: clone_def RemoveDir_def emit_def)
qed

lemma MkdirAll_run:
  assumes "os_MkdirAll S p dirMode (world st) = (r, w')"
  shows "MkdirAll S p st =
           ((case r of
               None \<Rightarrow> Return ()
             | Some err \<Rightarrow> Fatal ''Failed to create directory '%s': %s.\<newline>'' [Str p, Err err]),
            st\<lparr>world := w'\<rparr>)"
  using assms by (cases r) (simp_all add: MkdirAll_def)

section \<open>Facts about the search for the module root\<close>

lemma path_Dir_root: "path_Dir ''/'' = ''/''"
  by (simp add: path_eval)

lemma funpow_Dir_root: "(path_Dir ^^ k) ''/'' = ''/''"
  by (induction k) (simp_all add: path_Dir_root)

lemma root_not_in_DEPS: "path_Base (path_Dir ''/'') \<noteq> DepsDirName"
  by (simp add: path_eval DepsDirName_def)

lemma funpow_Dir_abs:
  "path_IsAbs p \<Longrightarrow> path_IsAbs ((path_Dir ^^ k) p) \<and> length ((path_Dir ^^ k) p) \<le> length p"
proof (induction k)
  case 0
  then show ?case
    by simp
next
  case (Suc k)
  let ?q = "(path_Dir ^^ k) p"
  from Suc have q: "path_IsAbs ?q" "length ?q \<le> length p"
    by simp_all
  have "length (path_Dir ?q) \<le> length ?q"
  proof (cases "?q = ''/''")
    case True
    then show ?thesis
      by (simp add: path_Dir_root)
  next
    case False
    from path_Dir_abs(2) [OF q(1) False] show ?thesis
      by simp
  qed
  with q path_Dir_abs(1) [OF q(1)] show ?case
    by simp
qed

text \<open>On an absolute path the search returns.\<close>

lemma getModuleRoot_returns:
  "path_IsAbs p \<Longrightarrow> \<exists>r. getModuleRoot S w p = Some r"
proof (induction p rule: measure_induct_rule [where f = length])
  case (less p)
  show ?case
  proof (cases "isModuleRoot S w p \<or> p = ''/''")
    case True
    then show ?thesis
      by (subst getModuleRoot.simps) auto
  next
    case False
    then have "length (path_Dir p) < length p" and "path_IsAbs (path_Dir p)"
      using path_Dir_abs [OF less.prems] by simp_all
    from less.IH [OF this] obtain r where "getModuleRoot S w (path_Dir p) = Some r"
      by blast
    with False show ?thesis
      by (subst getModuleRoot.simps) simp
  qed
qed

text \<open>Whatever the path is, a result of the search is the nearest module root, or none is there.\<close>

lemma nearest_here: "P p \<Longrightarrow> nearest P p p"
  unfolding nearest_def by (intro exI [of _ 0]) simp

lemma nearest_up:
  assumes "\<not> P p" and "nearest P (path_Dir p) q"
  shows "nearest P p q"
proof -
  from assms(2) obtain k where k: "q = (path_Dir ^^ k) (path_Dir p)" "P q"
    "\<forall>j<k. \<not> P ((path_Dir ^^ j) (path_Dir p))"
    unfolding nearest_def by blast
  have "\<not> P ((path_Dir ^^ j) p)" if "j < Suc k" for j
  proof (cases j)
    case 0
    with assms(1) show ?thesis
      by simp
  next
    case (Suc i)
    with that k(3) show ?thesis
      by (simp add: funpow_swap1)
  qed
  with k(1,2) show ?thesis
    unfolding nearest_def by (intro exI [of _ "Suc k"]) (simp add: funpow_swap1)
qed

lemma getModuleRoot_result:
  assumes "getModuleRoot S w p = Some r"
  shows "case r of
           Inr q \<Rightarrow> nearest (isModuleRoot S w) p q
         | Inl err \<Rightarrow> err = GoError ''not inside a module'' \<and> (\<exists>k. (path_Dir ^^ k) p = ''/'') \<and>
               (\<forall>k. \<not> isModuleRoot S w ((path_Dir ^^ k) p))"
proof -
  let ?P = "\<lambda>S w p r. case r of
              Inr q \<Rightarrow> nearest (isModuleRoot S w) p q
            | Inl err \<Rightarrow> err = GoError ''not inside a module'' \<and> (\<exists>k. (path_Dir ^^ k) p = ''/'') \<and>
               (\<forall>k. \<not> isModuleRoot S w ((path_Dir ^^ k) p))"
  show "?P S w p r"
  proof (rule getModuleRoot.raw_induct [where P = ?P, OF _ assms])
    fix f :: "'a sys \<Rightarrow> 'a \<Rightarrow> string \<Rightarrow> (error + string) option" and S w p r
    assume IH: "\<And>S w p r. f S w p = Some r \<Longrightarrow> ?P S w p r"
      and eq: "(if isModuleRoot S w p then Some (Inr p)
                else if p = ''/'' then Some (Inl (GoError ''not inside a module''))
                else f S w (path_Dir p)) = Some r"
    show "?P S w p r"
    proof (cases "isModuleRoot S w p")
      case True
      with eq show ?thesis
        by (auto simp: nearest_here)
    next
      case False
      note no = this
      show ?thesis
      proof (cases "p = ''/''")
        case True
        then have "(path_Dir ^^ 0) p = ''/''"
          by simp
        then have "\<exists>k. (path_Dir ^^ k) p = ''/''"
          by blast
        with True no eq show ?thesis
          by (auto simp: funpow_Dir_root)
      next
        case False
        with no eq have rec: "f S w (path_Dir p) = Some r"
          by simp
        show ?thesis
        proof (cases r)
          case (Inr q)
          with IH [OF rec] have "nearest (isModuleRoot S w) (path_Dir p) q"
            by simp
          with no Inr show ?thesis
            by (simp add: nearest_up)
        next
          case (Inl err)
          with IH [OF rec] have e: "err = GoError ''not inside a module''"
            and top: "\<exists>k. (path_Dir ^^ k) (path_Dir p) = ''/''"
            and up: "\<forall>k. \<not> isModuleRoot S w ((path_Dir ^^ k) (path_Dir p))"
            by simp_all
          from top obtain k0 where "(path_Dir ^^ Suc k0) p = ''/''"
            by (auto simp: funpow_swap1)
          then have top': "\<exists>k. (path_Dir ^^ k) p = ''/''"
            by blast
          have "\<not> isModuleRoot S w ((path_Dir ^^ k) p)" for k
          proof (cases k)
            case 0
            with no show ?thesis
              by simp
          next
            case (Suc i)
            with up show ?thesis
              by (simp add: funpow_swap1)
          qed
          with e top' Inl show ?thesis
            by simp
        qed
      qed
    qed
  qed
qed

text \<open>The same for the loop of \<open>GetWorkspaceRoot\<close>.\<close>

lemma nearest_absolute:
  assumes "path_IsAbs p" and "nearest P p q"
  shows "path_IsAbs q \<and> length q \<le> length p"
  using assms funpow_Dir_abs unfolding nearest_def by blast

lemma nearest_skip:
  assumes m: "nearest M p q" and notP: "\<not> P q" and PM: "\<And>d. P d \<Longrightarrow> M d"
    and rest: "nearest P (path_Dir q) t"
  shows "nearest P p t"
proof -
  from m obtain k where k: "q = (path_Dir ^^ k) p" "\<forall>j<k. \<not> M ((path_Dir ^^ j) p)"
    unfolding nearest_def by blast
  from rest obtain n where n: "t = (path_Dir ^^ n) (path_Dir q)" "P t"
    "\<forall>j<n. \<not> P ((path_Dir ^^ j) (path_Dir q))"
    unfolding nearest_def by blast
  have t: "t = (path_Dir ^^ (n + Suc k)) p"
    using n(1) k(1) by (simp add: funpow_add funpow_swap1)
  have "\<not> P ((path_Dir ^^ j) p)" if "j < n + Suc k" for j
  proof -
    consider "j < k" | "j = k" | "k < j"
      by linarith
    then show ?thesis
    proof cases
      case 1
      with k(2) PM show ?thesis
        by blast
    next
      case 2
      with k(1) notP show ?thesis
        by simp
    next
      case 3
      define i where "i = j - Suc k"
      with 3 that have i: "j = i + Suc k" "i < n"
        by simp_all
      with n(3) k(1) show ?thesis
        by (simp add: funpow_add funpow_swap1)
    qed
  qed
  with t n(2) show ?thesis
    unfolding nearest_def by blast
qed

lemma workspaceRootLoop_result:
  assumes "workspaceRootLoop S w p = Some r"
  shows "case r of
           Return q \<Rightarrow> nearest (isWorkspaceRoot S w) p q
         | Fatal f a \<Rightarrow> a = [Err (GoError ''not inside a module'')]"
proof -
  let ?P = "\<lambda>S w p r. case r of
              Return q \<Rightarrow> nearest (isWorkspaceRoot S w) p q
            | Fatal f a \<Rightarrow> a = [Err (GoError ''not inside a module'')]"
  show "?P S w p r"
  proof (rule workspaceRootLoop.raw_induct [where P = ?P, OF _ assms])
    fix loop :: "'a sys \<Rightarrow> 'a \<Rightarrow> string \<Rightarrow> string outcome option" and S w p r
    assume IH: "\<And>S w p r. loop S w p = Some r \<Longrightarrow> ?P S w p r"
      and eq: "Option.bind (getModuleRoot S w p)
         (\<lambda>r. case r of
            Inl err \<Rightarrow>
              Some (Fatal ''Could not identify workspace root directory. Make sure you run this command inside a workspace: %s.\<newline>'' [Err err])
          | Inr p' \<Rightarrow>
              if path_Base (path_Dir p') \<noteq> DepsDirName then Some (Return p')
              else loop S w (path_Dir p')) = Some r"
    from eq obtain m where m: "getModuleRoot S w p = Some m"
      by (cases "getModuleRoot S w p") auto
    show "?P S w p r"
    proof (cases m)
      case (Inl err)
      with getModuleRoot_result [OF m] eq m show ?thesis
        by auto
    next
      case (Inr q)
      with getModuleRoot_result [OF m] have near: "nearest (isModuleRoot S w) p q"
        by simp
      then have root: "isModuleRoot S w q"
        unfolding nearest_def by blast
      show ?thesis
      proof (cases "path_Base (path_Dir q) \<noteq> DepsDirName")
        case True
        with eq m Inr have r: "r = Return q"
          by simp
        from near obtain k where k: "q = (path_Dir ^^ k) p" "\<forall>j<k. \<not> isModuleRoot S w ((path_Dir ^^ j) p)"
          unfolding nearest_def by blast
        with root True have "nearest (isWorkspaceRoot S w) p q"
          unfolding nearest_def isWorkspaceRoot_def by blast
        with r show ?thesis
          by simp
      next
        case False
        with eq m Inr have rec: "loop S w (path_Dir q) = Some r"
          by simp
        show ?thesis
        proof (cases r)
          case (Fatal f a)
          with IH [OF rec] show ?thesis
            by simp
        next
          case (Return t)
          with IH [OF rec] have "nearest (isWorkspaceRoot S w) (path_Dir q) t"
            by simp
          from nearest_skip [OF near _ _ this] False Return show ?thesis
            by (simp add: isWorkspaceRoot_def)
        qed
      qed
    qed
  qed
qed

lemma workspaceRootLoop_returns:
  "path_IsAbs p \<Longrightarrow> \<exists>r. workspaceRootLoop S w p = Some r"
proof (induction p rule: measure_induct_rule [where f = length])
  case (less p)
  from getModuleRoot_returns [OF less.prems, of S w] obtain m where m: "getModuleRoot S w p = Some m"
    by blast
  show ?case
  proof (cases m)
    case (Inl err)
    with m show ?thesis
      by (subst workspaceRootLoop.simps) simp
  next
    case (Inr q)
    with getModuleRoot_result [OF m] have "nearest (isModuleRoot S w) p q"
      by simp
    from nearest_absolute [OF less.prems this] have q: "path_IsAbs q" "length q \<le> length p"
      by simp_all
    show ?thesis
    proof (cases "path_Base (path_Dir q) \<noteq> DepsDirName")
      case True
      with m Inr show ?thesis
        by (subst workspaceRootLoop.simps) simp
    next
      case False
      with root_not_in_DEPS have "q \<noteq> ''/''"
        by auto
      from path_Dir_abs [OF q(1)] this q(2) have "length (path_Dir q) < length p" "path_IsAbs (path_Dir q)"
        by simp_all
      from less.IH [OF this] obtain r where "workspaceRootLoop S w (path_Dir q) = Some r"
        by blast
      with m Inr False show ?thesis
        by (subst workspaceRootLoop.simps) simp
    qed
  qed
qed

section \<open>Facts about the in-memory world\<close>

lemmas demo_defs = fakeSys_def demoState_def demoWorld_def libModule_def libPath_def resolve_def path_IsAbs_def

lemma resolve_update:
  "resolve (w\<lparr>dirs := ds\<rparr>) name = resolve w name"
  "resolve (w\<lparr>files := fs\<rparr>) name = resolve w name"
  by (simp_all add: resolve_def)

lemma fakeSys_osContract: "osContract fakeSys"
  by (auto simp: osContract_def fakeSys_def absent_def FileExists_def DirExists_def under_def
      resolve_update split: if_splits)

lemma path_Join_abs:
  assumes "path_IsAbs p"
  shows "path_IsAbs (path_Join [p, e])"
proof -
  from assms have p: "p \<noteq> []"
    by (auto simp: path_IsAbs_def)
  then have "path_IsAbs (strings_Join [p, e] ''/'')"
    using assms by (cases p) (simp_all add: path_IsAbs_def)
  from path_Clean_abs(1) [OF this] p show ?thesis
    by (simp add: path_Join_def)
qed

lemma fakeSys_cloneMakesWorkingCopy: "cloneMakesWorkingCopy fakeSys"
  unfolding cloneMakesWorkingCopy_def
proof (intro allI impI)
  fix url p dir w out errout w'
  assume a: "path_IsAbs p \<and>
    cmd_Run fakeSys ''jj'' [''git'', ''clone'', url, p] dir w = ((out, errout, None), w')"
  then have abs: "path_IsAbs p"
    by simp
  have r: "resolve v p = p" "resolve v (path_Join [p, ''.jj'']) = path_Join [p, ''.jj'']" for v
    using abs path_Join_abs [OF abs] by (simp_all add: resolve_def)
  from a have "w' = w\<lparr>dirs := path_Join [p, ''.jj''] # p # dirs w\<rparr>"
    by (auto simp: fakeSys_def r split: option.splits)
  then show "workingCopyAt fakeSys w' p"
    by (simp add: workingCopyAt_def DirExists_def fakeSys_def r)
qed

section \<open>Claims\<close>

subsection \<open>C1\<close>

text \<open>
  C1, as the claim states it: \<open>Checkout(ref)\<close> gives a typed result and never terminates
  the process. In the code, the call for the reference \<open>main\<close> is a call of \<open>log.Fatal\<close>:
  the process is terminated and nothing is returned.
\<close>

theorem Checkout_counterexample:
  "fst (Checkout fakeSys libModule ''main'' demoState)
     = Fatal ''Unable to checkout a JJ repository to '' [Str ''main'']"
  by (simp add: Checkout_def)

text \<open>
  C1, amended. For the Jujutsu backend, \<open>Checkout(ref)\<close> never returns: for every reference
  and in every state it calls \<open>log.Fatal\<close> with the format
  \<open>"Unable to checkout a JJ repository to "\<close> and the reference as operand, which terminates
  the process; it starts no subprocess and leaves the world and the trace as they are.
\<close>

theorem Checkout_fatal:
  "Checkout S m ref st = (Fatal ''Unable to checkout a JJ repository to '' [Str ref], st) \<and>
   (\<forall>r. fst (Checkout S m ref st) \<noteq> Return r)"
  by (simp add: Checkout_def)

subsection \<open>C2\<close>

text \<open>
  C2, as the claim states it: for every URL and module path, if the clone fails then the
  partial destination directory is removed before the error is returned, so that the
  working copy is absent; if it succeeds, the working copy exists at the module path.
  In the code, neither half holds for every URL and module path.

    \<^item> In \<open>stuckWorld\<close> nothing is at \<open>/ws/DEPS/gone\<close>, the tool fails on the URL, and
      the operating system refuses the removal. No error is returned: the process is
      terminated through \<open>log.Fatal\<close>, and the directory that was not there before the
      call is there after it.

    \<^item> In \<open>demoWorld\<close>, with the relative module path \<open>util\<close>, the directory
      \<open>/ws/DEPS/lib/src/util\<close> is made and the tool is started in it, with the
      destination \<open>util\<close>. The clone succeeds and the module is returned, but the
      working copy is at \<open>util/util\<close>; there is none at the module path.
\<close>

theorem createJujutsuModule_counterexample:
  "absent fakeSys (world stuckState) ''/ws/DEPS/gone'' \<and>
   fst (createJujutsuModule fakeSys ''/ws/DEPS/gone'' ''https://example.org/gone.git'' stuckState)
     = Fatal ''Failed to remove directory '%s': %s.\<newline>''
         [Str ''/ws/DEPS/gone'', Err (GoError ''permission denied'')] \<and>
   trace (snd (createJujutsuModule fakeSys ''/ws/DEPS/gone'' ''https://example.org/gone.git'' stuckState))
     = [Log ''Cloning '%s'.\<newline>'' [Str ''https://example.org/gone.git''],
        Debug ''Running jj command: jj %s\<newline>''
          [Str ''git clone https://example.org/gone.git /ws/DEPS/gone''],
        Exec ''jj'' [''git'', ''clone'', ''https://example.org/gone.git'', ''/ws/DEPS/gone''] ''/ws/DEPS/gone''] \<and>
   DirExists fakeSys
     (world (snd (createJujutsuModule fakeSys ''/ws/DEPS/gone'' ''https://example.org/gone.git'' stuckState)))
     ''/ws/DEPS/gone'' \<and>
   fst (createJujutsuModule fakeSys ''util'' ''https://example.org/org/util.git'' demoState)
     = Return (Inr \<lparr>path = ''util''\<rparr>) \<and>
   \<not> workingCopyAt fakeSys
     (world (snd (createJujutsuModule fakeSys ''util'' ''https://example.org/org/util.git'' demoState)))
     ''util'' \<and>
   workingCopyAt fakeSys
     (world (snd (createJujutsuModule fakeSys ''util'' ''https://example.org/org/util.git'' demoState)))
     ''util/util''"
proof -
  have stuck: "createJujutsuModule fakeSys ''/ws/DEPS/gone'' ''https://example.org/gone.git'' stuckState
     = (Fatal ''Failed to remove directory '%s': %s.\<newline>''
          [Str ''/ws/DEPS/gone'', Err (GoError ''permission denied'')],
        \<lparr>world = stuckWorld\<lparr>dirs := ''/ws/DEPS/gone'' # ''/ws/DEPS/gone'' # dirs stuckWorld\<rparr>,
         trace =
           [Log ''Cloning '%s'.\<newline>'' [Str ''https://example.org/gone.git''],
            Debug ''Running jj command: jj %s\<newline>''
              [Str ''git clone https://example.org/gone.git /ws/DEPS/gone''],
            Exec ''jj'' [''git'', ''clone'', ''https://example.org/gone.git'', ''/ws/DEPS/gone'']
              ''/ws/DEPS/gone'']\<rparr>)"
    by (simp add: createJujutsuModule_def MkdirAll_def clone_def RemoveDir_def tryRunJjCommand_def
        run_def emit_def dirMode_def stuckState_def stuckWorld_def demo_defs)
  have cwd: "path_Join [''/ws/DEPS/lib/src'', ''util''] = ''/ws/DEPS/lib/src/util''"
    "path_Join [''/ws/DEPS/lib/src/util'', ''util''] = ''/ws/DEPS/lib/src/util/util''"
    "path_Join [''/ws/DEPS/lib/src/util/util'', ''.jj''] = ''/ws/DEPS/lib/src/util/util/.jj''"
    "path_Join [''/ws/DEPS/lib/src'', ''util/util''] = ''/ws/DEPS/lib/src/util/util''"
    "path_Join [''util'', ''.jj''] = ''util/.jj''"
    "path_Join [''util/util'', ''.jj''] = ''util/util/.jj''"
    "path_Join [''/ws/DEPS/lib/src'', ''util/.jj''] = ''/ws/DEPS/lib/src/util/.jj''"
    "path_Join [''/ws/DEPS/lib/src'', ''util/util/.jj''] = ''/ws/DEPS/lib/src/util/util/.jj''"
    by (simp_all add: path_eval)
  have rel: "createJujutsuModule fakeSys ''util'' ''https://example.org/org/util.git'' demoState
     = (Return (Inr \<lparr>path = ''util''\<rparr>),
        \<lparr>world = demoWorld\<lparr>dirs := ''/ws/DEPS/lib/src/util/util/.jj'' # ''/ws/DEPS/lib/src/util/util''
                                      # ''/ws/DEPS/lib/src/util'' # dirs demoWorld\<rparr>,
         trace =
           [Log ''Cloning '%s'.\<newline>'' [Str ''https://example.org/org/util.git''],
            Debug ''Running jj command: jj %s\<newline>''
              [Str ''git clone https://example.org/org/util.git util''],
            Exec ''jj'' [''git'', ''clone'', ''https://example.org/org/util.git'', ''util''] ''util'']\<rparr>)"
    by (simp add: createJujutsuModule_def MkdirAll_def clone_def RemoveDir_def tryRunJjCommand_def
        run_def emit_def dirMode_def demo_defs cwd)
  show ?thesis
    unfolding stuck rel
    by (simp add: absent_def workingCopyAt_def FileExists_def DirExists_def stuckState_def
        stuckWorld_def demo_defs cwd)
qed

text \<open>
  C2, amended. \<open>createJujutsuModule\<close> makes the directory of the module, then runs
  \<open>jj git clone\<close> with the URL and the module path, in that directory. What it does next
  is fixed by the results of \<open>os.MkdirAll\<close>, of the subprocess and of \<open>os.RemoveAll\<close>:

    \<^item> when the directory cannot be made, the process is terminated through \<open>log.Fatal\<close>,
      before any subprocess is started;

    \<^item> when the subprocess ends without error, the module is returned, and the world is
      the one that the subprocess left; so, with a tool that keeps
      \<open>cloneMakesWorkingCopy\<close> and an absolute module path, there is a working copy at
      the module path;

    \<^item> when the subprocess ends with an error, \<open>os.RemoveAll\<close> is called on the module
      path. If the removal succeeds, the error of the subprocess is returned, and on a
      system that keeps \<open>osContract\<close> nothing is left at the module path, so that a retry
      starts clean. If the removal fails, no error is returned: the process is terminated
      through \<open>log.Fatal\<close>, in the world that the failed removal left.
\<close>

theorem createJujutsuModule_outcome:
  assumes mk: "os_MkdirAll S modulePath dirMode (world st) = (mr, w0)"
    and run: "cmd_Run S ''jj'' [''git'', ''clone'', url, modulePath] modulePath w0 = ((out, errout, r), w1)"
    and rm: "os_RemoveAll S modulePath w1 = (rr, w2)"
  shows
    "createJujutsuModule S modulePath url st =
       (case mr of
          Some e \<Rightarrow>
            (Fatal ''Failed to create directory '%s': %s.\<newline>'' [Str modulePath, Err e],
             st\<lparr>world := w0\<rparr>)
        | None \<Rightarrow>
            (case r of
               None \<Rightarrow>
                 (Return (Inr \<lparr>path = modulePath\<rparr>),
                  st\<lparr>world := w1,
                     trace := trace st @
                       [Log ''Cloning '%s'.\<newline>'' [Str url],
                        Debug ''Running jj command: jj %s\<newline>''
                          [Str (strings_Join [''git'', ''clone'', url, modulePath] '' '')],
                        Exec ''jj'' [''git'', ''clone'', url, modulePath] modulePath]\<rparr>)
             | Some err \<Rightarrow>
                 ((case rr of
                     None \<Rightarrow> Return (Inl err)
                   | Some e \<Rightarrow>
                       Fatal ''Failed to remove directory '%s': %s.\<newline>'' [Str modulePath, Err e]),
                  st\<lparr>world := w2,
                     trace := trace st @
                       [Log ''Cloning '%s'.\<newline>'' [Str url],
                        Debug ''Running jj command: jj %s\<newline>''
                          [Str (strings_Join [''git'', ''clone'', url, modulePath] '' '')],
                        Exec ''jj'' [''git'', ''clone'', url, modulePath] modulePath]\<rparr>))) \<and>
     (osContract S \<and> fst (createJujutsuModule S modulePath url st) = Return (Inl err) \<longrightarrow>
        r = Some err \<and>
        absent S (world (snd (createJujutsuModule S modulePath url st))) modulePath) \<and>
     (cloneMakesWorkingCopy S \<and> path_IsAbs modulePath \<and>
      fst (createJujutsuModule S modulePath url st) = Return (Inr md) \<longrightarrow>
        md = \<lparr>path = modulePath\<rparr> \<and>
        workingCopyAt S (world (snd (createJujutsuModule S modulePath url st))) modulePath)"
proof -
  let ?T = "[Log ''Cloning '%s'.\<newline>'' [Str url],
             Debug ''Running jj command: jj %s\<newline>''
               [Str (strings_Join [''git'', ''clone'', url, modulePath] '' '')],
             Exec ''jj'' [''git'', ''clone'', url, modulePath] modulePath]"
  let ?m = "\<lparr>path = modulePath\<rparr>"
  have run': "cmd_Run S ''jj'' [''git'', ''clone'', url, path ?m] (path ?m) (world (st\<lparr>world := w0\<rparr>))
                = ((out, errout, r), w1)"
    using run by simp
  have rm': "os_RemoveAll S (path ?m) w1 = (rr, w2)"
    using rm by simp
  have eq: "createJujutsuModule S modulePath url st =
       (case mr of
          Some e \<Rightarrow>
            (Fatal ''Failed to create directory '%s': %s.\<newline>'' [Str modulePath, Err e],
             st\<lparr>world := w0\<rparr>)
        | None \<Rightarrow>
            (case r of
               None \<Rightarrow> (Return (Inr ?m), st\<lparr>world := w1, trace := trace st @ ?T\<rparr>)
             | Some err \<Rightarrow>
                 ((case rr of
                     None \<Rightarrow> Return (Inl err)
                   | Some e \<Rightarrow>
                       Fatal ''Failed to remove directory '%s': %s.\<newline>'' [Str modulePath, Err e]),
                  st\<lparr>world := w2, trace := trace st @ ?T\<rparr>)))"
    using clone_run [OF run' rm']
    by (cases mr; cases r; cases rr) (simp_all add: createJujutsuModule_def MkdirAll_run [OF mk])
  have failed: "osContract S \<and> fst (createJujutsuModule S modulePath url st) = Return (Inl err) \<longrightarrow>
        r = Some err \<and>
        absent S (world (snd (createJujutsuModule S modulePath url st))) modulePath"
  proof
    assume a: "osContract S \<and> fst (createJujutsuModule S modulePath url st) = Return (Inl err)"
    with eq have "mr = None \<and> r = Some err \<and> rr = None"
      by (cases mr; cases r; cases rr) simp_all
    then have c: "mr = None" "r = Some err" "rr = None"
      by simp_all
    from a rm c have "absent S w2 modulePath"
      by (simp add: osContract_def)
    with eq c show "r = Some err \<and>
        absent S (world (snd (createJujutsuModule S modulePath url st))) modulePath"
      by simp
  qed
  have cloned: "cloneMakesWorkingCopy S \<and> path_IsAbs modulePath \<and>
      fst (createJujutsuModule S modulePath url st) = Return (Inr md) \<longrightarrow>
        md = \<lparr>path = modulePath\<rparr> \<and>
        workingCopyAt S (world (snd (createJujutsuModule S modulePath url st))) modulePath"
  proof
    assume a: "cloneMakesWorkingCopy S \<and> path_IsAbs modulePath \<and>
      fst (createJujutsuModule S modulePath url st) = Return (Inr md)"
    with eq have "mr = None \<and> r = None \<and> md = ?m"
      by (cases mr; cases r; cases rr) simp_all
    then have c: "mr = None" "r = None" "md = ?m"
      by simp_all
    from a have tool: "cloneMakesWorkingCopy S" and abs: "path_IsAbs modulePath"
      by simp_all
    from tool abs run c have "workingCopyAt S w1 modulePath"
      unfolding cloneMakesWorkingCopy_def by blast
    with eq c show "md = \<lparr>path = modulePath\<rparr> \<and>
        workingCopyAt S (world (snd (createJujutsuModule S modulePath url st))) modulePath"
      by simp
  qed
  show ?thesis
    by (rule conjI [OF eq conjI [OF failed cloned]])
qed

text \<open>
  C2, amended, in the in-memory world. Nothing is at \<open>/ws/DEPS/util\<close> and no working copy
  is there; creating the module for \<open>https://example.org/org/util.git\<close> returns it, the
  subprocess has run, and there is a working copy at \<open>/ws/DEPS/util\<close>. Creating a module
  at \<open>/ws/DEPS/gone\<close> for a repository that does not exist returns the error of the
  subprocess and leaves nothing at that path, though the tool had left its destination
  directory behind.
\<close>

theorem createJujutsuModule_outcome_witness:
  "osContract fakeSys \<and> cloneMakesWorkingCopy fakeSys \<and>
   absent fakeSys (world demoState) ''/ws/DEPS/util'' \<and>
   \<not> workingCopyAt fakeSys (world demoState) ''/ws/DEPS/util'' \<and>
   createJujutsuModule fakeSys ''/ws/DEPS/util'' ''https://example.org/org/util.git'' demoState
     = (Return (Inr \<lparr>path = ''/ws/DEPS/util''\<rparr>),
        \<lparr>world = demoWorld\<lparr>dirs := ''/ws/DEPS/util/.jj'' # ''/ws/DEPS/util'' # ''/ws/DEPS/util'' # dirs demoWorld\<rparr>,
         trace =
           [Log ''Cloning '%s'.\<newline>'' [Str ''https://example.org/org/util.git''],
            Debug ''Running jj command: jj %s\<newline>''
              [Str ''git clone https://example.org/org/util.git /ws/DEPS/util''],
            Exec ''jj'' [''git'', ''clone'', ''https://example.org/org/util.git'', ''/ws/DEPS/util'']
              ''/ws/DEPS/util'']\<rparr>) \<and>
   workingCopyAt fakeSys
     (world (snd (createJujutsuModule fakeSys ''/ws/DEPS/util'' ''https://example.org/org/util.git'' demoState)))
     ''/ws/DEPS/util'' \<and>
   cmd_Run fakeSys ''jj'' [''git'', ''clone'', ''https://example.org/gone.git'', ''/ws/DEPS/gone''] ''/ws/DEPS/gone''
       (demoWorld\<lparr>dirs := ''/ws/DEPS/gone'' # dirs demoWorld\<rparr>)
     = (([], ''Error: repository not found\<newline>'', Some (GoError ''exit status 1'')),
        demoWorld\<lparr>dirs := ''/ws/DEPS/gone'' # ''/ws/DEPS/gone'' # dirs demoWorld\<rparr>) \<and>
   fst (createJujutsuModule fakeSys ''/ws/DEPS/gone'' ''https://example.org/gone.git'' demoState)
     = Return (Inl (GoError ''exit status 1'')) \<and>
   absent fakeSys
     (world (snd (createJujutsuModule fakeSys ''/ws/DEPS/gone'' ''https://example.org/gone.git'' demoState)))
     ''/ws/DEPS/gone''"
proof -
  let ?u = "''/ws/DEPS/util''" and ?uurl = "''https://example.org/org/util.git''"
  let ?g = "''/ws/DEPS/gone''" and ?gurl = "''https://example.org/gone.git''"
  have before: "absent fakeSys (world demoState) ?u" "\<not> workingCopyAt fakeSys (world demoState) ?u"
    by (simp_all add: absent_def workingCopyAt_def FileExists_def DirExists_def demo_defs)
  have umk: "os_MkdirAll fakeSys ?u dirMode (world demoState) = (None, demoWorld\<lparr>dirs := ?u # dirs demoWorld\<rparr>)"
    by (simp add: demo_defs)
  have urun: "cmd_Run fakeSys ''jj'' [''git'', ''clone'', ?uurl, ?u] ?u (demoWorld\<lparr>dirs := ?u # dirs demoWorld\<rparr>)
      = (([], ''Fetching into new repo\<newline>'', None),
         demoWorld\<lparr>dirs := ''/ws/DEPS/util/.jj'' # ?u # ?u # dirs demoWorld\<rparr>)"
    by (simp add: demo_defs path_eval)
  have urm: "os_RemoveAll fakeSys ?u (demoWorld\<lparr>dirs := ''/ws/DEPS/util/.jj'' # ?u # ?u # dirs demoWorld\<rparr>)
      = (None, demoWorld)"
    by (simp add: demo_defs under_def)
  have gmk: "os_MkdirAll fakeSys ?g dirMode (world demoState) = (None, demoWorld\<lparr>dirs := ?g # dirs demoWorld\<rparr>)"
    by (simp add: demo_defs)
  have grun: "cmd_Run fakeSys ''jj'' [''git'', ''clone'', ?gurl, ?g] ?g (demoWorld\<lparr>dirs := ?g # dirs demoWorld\<rparr>)
      = (([], ''Error: repository not found\<newline>'', Some (GoError ''exit status 1'')),
         demoWorld\<lparr>dirs := ?g # ?g # dirs demoWorld\<rparr>)"
    by (simp add: demo_defs)
  have grm: "os_RemoveAll fakeSys ?g (demoWorld\<lparr>dirs := ?g # ?g # dirs demoWorld\<rparr>) = (None, demoWorld)"
    by (simp add: demo_defs under_def)
  have abs: "path_IsAbs ?u"
    by (simp add: path_IsAbs_def)
  have join: "strings_Join [''git'', ''clone'', ?uurl, ?u] '' ''
      = ''git clone https://example.org/org/util.git /ws/DEPS/util''"
    by simp
  note U = createJujutsuModule_outcome [OF umk urun urm, of "GoError ''exit status 1''" "\<lparr>path = ?u\<rparr>"]
  note G = createJujutsuModule_outcome [OF gmk grun grm, of "GoError ''exit status 1''" "\<lparr>path = ?g\<rparr>"]
  have ueq: "createJujutsuModule fakeSys ?u ?uurl demoState
     = (Return (Inr \<lparr>path = ?u\<rparr>),
        \<lparr>world = demoWorld\<lparr>dirs := ''/ws/DEPS/util/.jj'' # ?u # ?u # dirs demoWorld\<rparr>,
         trace =
           [Log ''Cloning '%s'.\<newline>'' [Str ?uurl],
            Debug ''Running jj command: jj %s\<newline>''
              [Str ''git clone https://example.org/org/util.git /ws/DEPS/util''],
            Exec ''jj'' [''git'', ''clone'', ?uurl, ?u] ?u]\<rparr>)"
    using U [THEN conjunct1] by (simp add: join demoState_def)
  have ufst: "fst (createJujutsuModule fakeSys ?u ?uurl demoState) = Return (Inr \<lparr>path = ?u\<rparr>)"
    by (simp add: ueq)
  have uwc: "workingCopyAt fakeSys (world (snd (createJujutsuModule fakeSys ?u ?uurl demoState))) ?u"
    using U [THEN conjunct2, THEN conjunct2] fakeSys_cloneMakesWorkingCopy abs ufst by blast
  have gfst: "fst (createJujutsuModule fakeSys ?g ?gurl demoState) = Return (Inl (GoError ''exit status 1''))"
    using G [THEN conjunct1] by simp
  have gabs: "absent fakeSys (world (snd (createJujutsuModule fakeSys ?g ?gurl demoState))) ?g"
    using G [THEN conjunct2, THEN conjunct1] fakeSys_osContract gfst by blast
  from before grun ueq uwc gfst gabs fakeSys_osContract fakeSys_cloneMakesWorkingCopy
  show ?thesis
    by (intro conjI)
qed

subsection \<open>C3\<close>

text \<open>
  C3. For the Jujutsu backend, \<open>IsDirty()\<close> returns false in every state of the working
  copy, whatever the operating system and the tools are.
\<close>

theorem IsDirty_false: "\<not> IsDirty S m st"
  by (simp add: IsDirty_def)

subsection \<open>C4\<close>




subsection \<open>C5\<close>

text \<open>
  C5, as the claim states it: when the reference does not resolve, \<open>RevParse(ref)\<close> fails
  with a typed error and does not terminate the process. In the code, for the reference
  \<open>nosuchref\<close>, on which \<open>git rev-list\<close> exits with status 128, the outcome is a call of
  \<open>log.Fatal\<close>: the process is terminated and no value, error or not, is returned.
\<close>

theorem RevParse_counterexample:
  "fst (RevParse fakeSys libModule ''nosuchref'' demoState)
     = Fatal ''Failed to run git command 'git %s':\<newline>%s\<newline>%s\<newline>%s\<newline>''
         [Str ''rev-list -n 1 nosuchref'', Str ''fatal: ambiguous argument 'nosuchref': unknown revision'', Str [],
          Err (GoError ''exit status 128'')]"
proof -
  have root: "cmd_Run fakeSys ''jj'' [''git'', ''root''] (path libModule) (world demoState)
     = ((''/ws/DEPS/lib/.jj/repo/store/git\<newline>'', [], None), demoWorld)"
    by (simp add: demo_defs)
  have git: "cmd_Run fakeSys ''git'' [''rev-list'', ''-n'', ''1'', ''nosuchref'']
               (strings_TrimSuffix ''/ws/DEPS/lib/.jj/repo/store/git\<newline>'' ''\<newline>'') demoWorld
     = (([], ''fatal: ambiguous argument 'nosuchref': unknown revision\<newline>'', Some (GoError ''exit status 128'')), demoWorld)"
    by (simp add: demo_defs eval_defs)
  show ?thesis
    unfolding RevParse_def runGitCommand_run [OF root git] by (simp add: eval_defs)
qed

text \<open>
  C5, amended. \<open>RevParse(ref)\<close> runs \<open>git rev-list -n 1 ref\<close> in the directory that
  \<open>jj git root\<close> reports. When both subprocesses end without error it returns the standard
  output of \<open>git\<close> less one trailing line feed, which is the commit identifier the
  reference resolves to. When \<open>git\<close> ends with an error, as it does for a reference that
  does not resolve, or when \<open>jj git root\<close> does, the process is terminated through
  \<open>log.Fatal\<close>, with the command line, both captured streams and the error as operands.
\<close>

theorem RevParse_outcome:
  "(cmd_Run S ''jj'' [''git'', ''root''] (path m) (world st) = ((o1, e1, None), w1) \<and>
    cmd_Run S ''git'' [''rev-list'', ''-n'', ''1'', ref] (strings_TrimSuffix o1 ''\<newline>'') w1
      = ((out, errout, None), w2) \<longrightarrow>
      fst (RevParse S m ref st) = Return (strings_TrimSuffix out ''\<newline>'')) \<and>
   (cmd_Run S ''jj'' [''git'', ''root''] (path m) (world st) = ((o1, e1, None), w1) \<and>
    cmd_Run S ''git'' [''rev-list'', ''-n'', ''1'', ref] (strings_TrimSuffix o1 ''\<newline>'') w1
      = ((out, errout, Some err), w2) \<longrightarrow>
      fst (RevParse S m ref st)
        = Fatal ''Failed to run git command 'git %s':\<newline>%s\<newline>%s\<newline>%s\<newline>''
            [Str (strings_Join [''rev-list'', ''-n'', ''1'', ref] '' ''),
             Str (strings_TrimSuffix errout ''\<newline>''), Str (strings_TrimSuffix out ''\<newline>''), Err err]) \<and>
   (cmd_Run S ''jj'' [''git'', ''root''] (path m) (world st) = ((o1, e1, Some err), w1) \<longrightarrow>
      fst (RevParse S m ref st)
        = Fatal ''Failed to run jj command 'jj %s':\<newline>%s\<newline>%s\<newline>%s\<newline>''
            [Str ''git root'', Str (strings_TrimSuffix e1 ''\<newline>''),
             Str (strings_TrimSuffix o1 ''\<newline>''), Err err])"
proof (intro conjI impI)
  assume "cmd_Run S ''jj'' [''git'', ''root''] (path m) (world st) = ((o1, e1, None), w1) \<and>
    cmd_Run S ''git'' [''rev-list'', ''-n'', ''1'', ref] (strings_TrimSuffix o1 ''\<newline>'') w1
      = ((out, errout, None), w2)"
  then show "fst (RevParse S m ref st) = Return (strings_TrimSuffix out ''\<newline>'')"
    using runGitCommand_run [of S m st o1 e1 w1 "[''rev-list'', ''-n'', ''1'', ref]" out errout None w2]
    by (simp add: RevParse_def)
next
  assume "cmd_Run S ''jj'' [''git'', ''root''] (path m) (world st) = ((o1, e1, None), w1) \<and>
    cmd_Run S ''git'' [''rev-list'', ''-n'', ''1'', ref] (strings_TrimSuffix o1 ''\<newline>'') w1
      = ((out, errout, Some err), w2)"
  then show "fst (RevParse S m ref st)
        = Fatal ''Failed to run git command 'git %s':\<newline>%s\<newline>%s\<newline>%s\<newline>''
            [Str (strings_Join [''rev-list'', ''-n'', ''1'', ref] '' ''),
             Str (strings_TrimSuffix errout ''\<newline>''), Str (strings_TrimSuffix out ''\<newline>''), Err err]"
    using runGitCommand_run [of S m st o1 e1 w1 "[''rev-list'', ''-n'', ''1'', ref]" out errout "Some err" w2]
    by (simp add: RevParse_def)
next
  assume "cmd_Run S ''jj'' [''git'', ''root''] (path m) (world st) = ((o1, e1, Some err), w1)"
  from runGitCommand_no_root [OF this]
  show "fst (RevParse S m ref st)
        = Fatal ''Failed to run jj command 'jj %s':\<newline>%s\<newline>%s\<newline>%s\<newline>''
            [Str ''git root'', Str (strings_TrimSuffix e1 ''\<newline>''),
             Str (strings_TrimSuffix o1 ''\<newline>''), Err err]"
    by (simp add: RevParse_def)
qed

text \<open>C5, amended, for the reference \<open>HEAD\<close> of the repository of the in-memory world.\<close>

theorem RevParse_outcome_witness:
  "cmd_Run fakeSys ''jj'' [''git'', ''root''] libPath demoWorld
     = ((''/ws/DEPS/lib/.jj/repo/store/git\<newline>'', [], None), demoWorld) \<and>
   cmd_Run fakeSys ''git'' [''rev-list'', ''-n'', ''1'', ''HEAD''] ''/ws/DEPS/lib/.jj/repo/store/git'' demoWorld
     = ((''3f2a9c1e\<newline>'', [], None), demoWorld) \<and>
   fst (RevParse fakeSys libModule ''HEAD'' demoState) = Return ''3f2a9c1e''"
proof -
  have root: "cmd_Run fakeSys ''jj'' [''git'', ''root''] (path libModule) (world demoState)
     = ((''/ws/DEPS/lib/.jj/repo/store/git\<newline>'', [], None), demoWorld)"
    by (simp add: demo_defs)
  have git: "cmd_Run fakeSys ''git'' [''rev-list'', ''-n'', ''1'', ''HEAD'']
               (strings_TrimSuffix ''/ws/DEPS/lib/.jj/repo/store/git\<newline>'' ''\<newline>'') demoWorld
     = ((''3f2a9c1e\<newline>'', [], None), demoWorld)"
    by (simp add: demo_defs eval_defs)
  have trim: "strings_TrimSuffix ''/ws/DEPS/lib/.jj/repo/store/git\<newline>'' ''\<newline>'' = ''/ws/DEPS/lib/.jj/repo/store/git''"
    "strings_TrimSuffix ''3f2a9c1e\<newline>'' ''\<newline>'' = ''3f2a9c1e''"
    by (simp_all add: eval_defs)
  have path: "path libModule = libPath" "world demoState = demoWorld"
    by (simp_all add: demo_defs)
  from root git
    RevParse_outcome [of fakeSys libModule demoState "''/ws/DEPS/lib/.jj/repo/store/git\<newline>''" "[]" demoWorld
      "''HEAD''" "''3f2a9c1e\<newline>''" "[]" demoWorld]
  show ?thesis
    unfolding trim path by blast
qed

subsection \<open>C6\<close>

text \<open>
  C6. Whenever a tool that is run through \<open>runJjCommand\<close> or \<open>runGitCommand\<close> ends with an
  error (a nonzero exit status is one), the runner has the outcome \<open>Fatal\<close>, which
  terminates the process, and the message that \<open>log.Fatal\<close> prints holds the text the
  subprocess wrote to its standard error, byte for byte, as a contiguous part. The first
  conjunct is \<open>jj\<close>; the second is \<open>git\<close>, run in the directory that \<open>jj git root\<close> has
  reported; the third is \<open>runGitCommand\<close> when \<open>jj git root\<close> itself fails.
\<close>

theorem runners_fatal:
  "(cmd_Run S ''jj'' args (path m) (world st) = ((out, errout, Some err), w') \<longrightarrow>
      (\<exists>f a msg. fst (runJjCommand S m args st) = Fatal f a \<and> Sprintf f a = Some msg \<and> sublist errout msg)) \<and>
   (cmd_Run S ''jj'' [''git'', ''root''] (path m) (world st) = ((o1, e1, None), w1) \<and>
    cmd_Run S ''git'' args (strings_TrimSuffix o1 ''\<newline>'') w1 = ((out, errout, Some err), w2) \<longrightarrow>
      (\<exists>f a msg. fst (runGitCommand S m args st) = Fatal f a \<and> Sprintf f a = Some msg \<and> sublist errout msg)) \<and>
   (cmd_Run S ''jj'' [''git'', ''root''] (path m) (world st) = ((o1, e1, Some err), w1) \<longrightarrow>
      (\<exists>f a msg. fst (runGitCommand S m args st) = Fatal f a \<and> Sprintf f a = Some msg \<and> sublist e1 msg))"
proof (intro conjI impI)
  assume "cmd_Run S ''jj'' args (path m) (world st) = ((out, errout, Some err), w')"
  from runJjCommand_run [OF this]
  have "fst (runJjCommand S m args st) =
      Fatal ''Failed to run jj command 'jj %s':\<newline>%s\<newline>%s\<newline>%s\<newline>''
        [Str (strings_Join args '' ''), Str (strings_TrimSuffix errout ''\<newline>''),
         Str (strings_TrimSuffix out ''\<newline>''), Err err]"
    by simp
  with jj_message_has_stderr
  show "\<exists>f a msg. fst (runJjCommand S m args st) = Fatal f a \<and> Sprintf f a = Some msg \<and> sublist errout msg"
    by metis
next
  assume "cmd_Run S ''jj'' [''git'', ''root''] (path m) (world st) = ((o1, e1, None), w1) \<and>
    cmd_Run S ''git'' args (strings_TrimSuffix o1 ''\<newline>'') w1 = ((out, errout, Some err), w2)"
  then have "fst (runGitCommand S m args st) =
      Fatal ''Failed to run git command 'git %s':\<newline>%s\<newline>%s\<newline>%s\<newline>''
        [Str (strings_Join args '' ''), Str (strings_TrimSuffix errout ''\<newline>''),
         Str (strings_TrimSuffix out ''\<newline>''), Err err]"
    using runGitCommand_run [of S m st o1 e1 w1 args out errout "Some err" w2] by simp
  with git_message_has_stderr
  show "\<exists>f a msg. fst (runGitCommand S m args st) = Fatal f a \<and> Sprintf f a = Some msg \<and> sublist errout msg"
    by metis
next
  assume "cmd_Run S ''jj'' [''git'', ''root''] (path m) (world st) = ((o1, e1, Some err), w1)"
  from runGitCommand_no_root [OF this]
  have "fst (runGitCommand S m args st) =
      Fatal ''Failed to run jj command 'jj %s':\<newline>%s\<newline>%s\<newline>%s\<newline>''
        [Str ''git root'', Str (strings_TrimSuffix e1 ''\<newline>''),
         Str (strings_TrimSuffix o1 ''\<newline>''), Err err]"
    by simp
  with jj_message_has_stderr
  show "\<exists>f a msg. fst (runGitCommand S m args st) = Fatal f a \<and> Sprintf f a = Some msg \<and> sublist e1 msg"
    by metis
qed

text \<open>
  C6 at concrete command lines: \<open>jj git clone\<close> of a repository that does not exist, and
  \<open>git rev-list\<close> of a reference that does not resolve.
\<close>

theorem runners_fatal_witness:
  "cmd_Run fakeSys ''jj'' [''git'', ''clone'', ''https://example.org/gone.git'', ''/ws/DEPS/gone''] libPath demoWorld
     = (([], ''Error: repository not found\<newline>'', Some (GoError ''exit status 1'')),
        demoWorld\<lparr>dirs := ''/ws/DEPS/gone'' # dirs demoWorld\<rparr>) \<and>
   (\<exists>f a msg.
      fst (runJjCommand fakeSys libModule [''git'', ''clone'', ''https://example.org/gone.git'', ''/ws/DEPS/gone''] demoState)
        = Fatal f a \<and>
      Sprintf f a = Some msg \<and> sublist ''Error: repository not found\<newline>'' msg) \<and>
   cmd_Run fakeSys ''git'' [''rev-list'', ''-n'', ''1'', ''nosuchref''] ''/ws/DEPS/lib/.jj/repo/store/git'' demoWorld
     = (([], ''fatal: ambiguous argument 'nosuchref': unknown revision\<newline>'', Some (GoError ''exit status 128'')), demoWorld) \<and>
   (\<exists>f a msg.
      fst (runGitCommand fakeSys libModule [''rev-list'', ''-n'', ''1'', ''nosuchref''] demoState) = Fatal f a \<and>
      Sprintf f a = Some msg \<and> sublist ''fatal: ambiguous argument 'nosuchref': unknown revision\<newline>'' msg)"
proof -
  have jj: "cmd_Run fakeSys ''jj'' [''git'', ''clone'', ''https://example.org/gone.git'', ''/ws/DEPS/gone'']
              (path libModule) (world demoState)
     = (([], ''Error: repository not found\<newline>'', Some (GoError ''exit status 1'')),
        demoWorld\<lparr>dirs := ''/ws/DEPS/gone'' # dirs demoWorld\<rparr>)"
    by (simp add: demo_defs)
  have root: "cmd_Run fakeSys ''jj'' [''git'', ''root''] (path libModule) (world demoState)
     = ((''/ws/DEPS/lib/.jj/repo/store/git\<newline>'', [], None), demoWorld)"
    by (simp add: demo_defs)
  have git: "cmd_Run fakeSys ''git'' [''rev-list'', ''-n'', ''1'', ''nosuchref'']
               (strings_TrimSuffix ''/ws/DEPS/lib/.jj/repo/store/git\<newline>'' ''\<newline>'') demoWorld
     = (([], ''fatal: ambiguous argument 'nosuchref': unknown revision\<newline>'', Some (GoError ''exit status 128'')), demoWorld)"
    by (simp add: demo_defs eval_defs)
  have trim: "strings_TrimSuffix ''/ws/DEPS/lib/.jj/repo/store/git\<newline>'' ''\<newline>'' = ''/ws/DEPS/lib/.jj/repo/store/git''"
    by (simp add: eval_defs)
  have path: "path libModule = libPath" "world demoState = demoWorld"
    by (simp_all add: demo_defs)
  from jj root git
    runners_fatal [of fakeSys "[''git'', ''clone'', ''https://example.org/gone.git'', ''/ws/DEPS/gone'']"
      libModule demoState "[]" "''Error: repository not found\<newline>''" "GoError ''exit status 1''"
      "demoWorld\<lparr>dirs := ''/ws/DEPS/gone'' # dirs demoWorld\<rparr>"]
    runners_fatal [of fakeSys "[''rev-list'', ''-n'', ''1'', ''nosuchref'']"
      libModule demoState "[]" "''fatal: ambiguous argument 'nosuchref': unknown revision\<newline>''" "GoError ''exit status 128''"
      _ "''/ws/DEPS/lib/.jj/repo/store/git\<newline>''" "[]" demoWorld demoWorld]
  show ?thesis
    unfolding trim path by blast
qed

subsection \<open>C7\<close>

text \<open>
  C7. \<open>GetCommitsBetweenRefs(base, head)\<close> runs \<open>git rev-list base..head\<close> (both
  references trimmed) in the directory that \<open>jj git root\<close> reports; what \<open>git\<close> lists for
  that range is the commits reachable from \<open>head\<close> but not from \<open>base\<close>. The function
  returns the lines of the standard output that are not blank, trimmed, in the order
  \<open>git\<close> printed them, so no entry is empty. When \<open>git\<close> prints commit identifiers, one on
  each line, the result is exactly that list in that order; when it prints nothing, as it
  does for a \<open>base\<close> and a \<open>head\<close> that are the same commit, the result is the empty
  list. The error of the subprocess is returned beside the list.
\<close>

theorem GetCommitsBetweenRefs_lines:
  assumes "cmd_Run S ''jj'' [''git'', ''root''] (path m) (world st) = ((o1, e1, None), w1)"
    and "cmd_Run S ''git'' [''rev-list'', strings_TrimSpace base @ ''..'' @ strings_TrimSpace head]
           (strings_TrimSuffix o1 ''\<newline>'') w1 = ((out, errout, r), w2)"
  shows
    "(\<exists>commits.
        fst (GetCommitsBetweenRefs S m base head st) = Return (commits, r) \<and>
        [] \<notin> set commits \<and>
        commits = filter (\<lambda>l. l \<noteq> [])
                    (map strings_TrimSpace (strings_Split (strings_TrimSuffix out ''\<newline>'') CHR 0x0A))) \<and>
     ((\<forall>c\<in>set cs. isCommitId c) \<and> out = concat (map (\<lambda>c. c @ ''\<newline>'') cs) \<longrightarrow>
        fst (GetCommitsBetweenRefs S m base head st) = Return (cs, r)) \<and>
     (out = [] \<longrightarrow> fst (GetCommitsBetweenRefs S m base head st) = Return ([], r))"
proof -
  let ?lines = "strings_Split (strings_TrimSuffix out ''\<newline>'') CHR 0x0A"
  let ?commits = "filter (\<lambda>l. l \<noteq> []) (map strings_TrimSpace ?lines)"
  have args: "[''rev-list'', strings_Join [strings_TrimSpace base, strings_TrimSpace head] ''..'']
                = [''rev-list'', strings_TrimSpace base @ ''..'' @ strings_TrimSpace head]"
    by simp
  have res: "fst (GetCommitsBetweenRefs S m base head st) = Return (?commits, r)"
    unfolding GetCommitsBetweenRefs_def args tryRunGitCommand_run [OF assms]
    by (simp add: collectLines_filter)
  have first: "\<exists>commits.
        fst (GetCommitsBetweenRefs S m base head st) = Return (commits, r) \<and>
        [] \<notin> set commits \<and> commits = ?commits"
    using res by simp
  have second: "(\<forall>c\<in>set cs. isCommitId c) \<and> out = concat (map (\<lambda>c. c @ ''\<newline>'') cs) \<longrightarrow>
        fst (GetCommitsBetweenRefs S m base head st) = Return (cs, r)"
  proof
    assume h: "(\<forall>c\<in>set cs. isCommitId c) \<and> out = concat (map (\<lambda>c. c @ ''\<newline>'') cs)"
    then have "strings_TrimSuffix out ''\<newline>'' = strings_Join cs ''\<newline>''"
      by (simp only: lines_TrimSuffix)
    with h commit_lines [of cs] have "?commits = cs"
      by simp
    with res show "fst (GetCommitsBetweenRefs S m base head st) = Return (cs, r)"
      by simp
  qed
  have third: "out = [] \<longrightarrow> fst (GetCommitsBetweenRefs S m base head st) = Return ([], r)"
  proof
    assume "out = []"
    then have "?commits = []"
      by (simp add: strings_TrimSuffix_def strings_HasSuffix_def strings_TrimSpace_def trimRightSpace.simps)
    with res show "fst (GetCommitsBetweenRefs S m base head st) = Return ([], r)"
      by simp
  qed
  show ?thesis
    by (rule conjI [OF first conjI [OF second third]])
qed

text \<open>
  C7 in the in-memory world, where \<open>main\<close> is two commits ahead of \<open>v1\<close>: the range from
  \<open>v1\<close> to \<open>main\<close> is these two commits, and the range from \<open>main\<close> to \<open>main\<close> is empty.
\<close>

theorem GetCommitsBetweenRefs_lines_witness:
  "cmd_Run fakeSys ''jj'' [''git'', ''root''] libPath demoWorld
     = ((''/ws/DEPS/lib/.jj/repo/store/git\<newline>'', [], None), demoWorld) \<and>
   cmd_Run fakeSys ''git'' [''rev-list'', ''v1..main''] ''/ws/DEPS/lib/.jj/repo/store/git'' demoWorld
     = ((concat (map (\<lambda>c. c @ ''\<newline>'') [''3f2a9c1e'', ''77b0d4aa'']), [], None), demoWorld) \<and>
   isCommitId ''3f2a9c1e'' \<and> isCommitId ''77b0d4aa'' \<and>
   fst (GetCommitsBetweenRefs fakeSys libModule '' v1'' ''main '' demoState)
     = Return ([''3f2a9c1e'', ''77b0d4aa''], None) \<and>
   cmd_Run fakeSys ''git'' [''rev-list'', ''main..main''] ''/ws/DEPS/lib/.jj/repo/store/git'' demoWorld
     = (([], [], None), demoWorld) \<and>
   fst (GetCommitsBetweenRefs fakeSys libModule ''main'' ''main'' demoState) = Return ([], None)"
proof -
  have root: "cmd_Run fakeSys ''jj'' [''git'', ''root''] (path libModule) (world demoState)
     = ((''/ws/DEPS/lib/.jj/repo/store/git\<newline>'', [], None), demoWorld)"
    by (simp add: demo_defs)
  have trim: "strings_TrimSuffix ''/ws/DEPS/lib/.jj/repo/store/git\<newline>'' ''\<newline>'' = ''/ws/DEPS/lib/.jj/repo/store/git''"
    by (simp add: eval_defs)
  have sp: "strings_TrimSpace '' v1'' = ''v1''" "strings_TrimSpace ''main '' = ''main''"
    "strings_TrimSpace ''main'' = ''main''"
    by (simp_all add: strings_TrimSpace_def leadingSpace_def trailingSpace_def spaceRunes_def
        suffix_to_prefix trimRightSpace.simps)
  have git1: "cmd_Run fakeSys ''git'' [''rev-list'', strings_TrimSpace '' v1'' @ ''..'' @ strings_TrimSpace ''main '']
               (strings_TrimSuffix ''/ws/DEPS/lib/.jj/repo/store/git\<newline>'' ''\<newline>'') demoWorld
     = ((concat (map (\<lambda>c. c @ ''\<newline>'') [''3f2a9c1e'', ''77b0d4aa'']), [], None), demoWorld)"
    unfolding sp trim by (simp add: demo_defs)
  have git2: "cmd_Run fakeSys ''git'' [''rev-list'', strings_TrimSpace ''main'' @ ''..'' @ strings_TrimSpace ''main'']
               (strings_TrimSuffix ''/ws/DEPS/lib/.jj/repo/store/git\<newline>'' ''\<newline>'') demoWorld
     = (([], [], None), demoWorld)"
    unfolding sp trim by (simp add: demo_defs)
  have ids: "isCommitId ''3f2a9c1e''" "isCommitId ''77b0d4aa''"
    by (simp_all add: isCommitId_def)
  have path: "path libModule = libPath" "world demoState = demoWorld"
    by (simp_all add: demo_defs)
  have a: "fst (GetCommitsBetweenRefs fakeSys libModule '' v1'' ''main '' demoState)
     = Return ([''3f2a9c1e'', ''77b0d4aa''], None)"
    by (rule GetCommitsBetweenRefs_lines [OF root git1, THEN conjunct2, THEN conjunct1, rule_format])
      (simp add: ids)
  have b: "fst (GetCommitsBetweenRefs fakeSys libModule ''main'' ''main'' demoState) = Return ([], None)"
    by (rule GetCommitsBetweenRefs_lines [OF root git2, THEN conjunct2, THEN conjunct2, rule_format])
      simp
  from root git1 git2 ids a b show ?thesis
    unfolding sp trim path by simp
qed

subsection \<open>C8\<close>

text \<open>
  C8. The name of a module is a function of its URL alone: whenever \<open>URL()\<close> returns
  \<open>url\<close>, \<open>Name()\<close> returns \<open>nameOfURL url\<close>, in the same state; so two modules (even on two
  systems) whose \<open>URL()\<close> return the same URL have the same name. The value is the last
  path element of the URL less a trailing \<open>.git\<close>: for a URL that ends, after a slash or
  from its start, with a non-empty element \<open>b\<close> free of slashes and then any number of
  slashes, it is \<open>b\<close> less a trailing \<open>.git\<close>.
\<close>

theorem Name_of_URL:
  "(URL S m st = (Return url, st') \<longrightarrow> Name S m st = (Return (nameOfURL url), st')) \<and>
   (URL S m st = (Return url, st') \<and> URL S2 m2 st2 = (Return url, st2') \<longrightarrow>
      fst (Name S m st) = fst (Name S2 m2 st2)) \<and>
   (b \<noteq> [] \<and> CHR ''/'' \<notin> set b \<and> set t \<subseteq> {CHR ''/''} \<and> (pre = [] \<or> last pre = CHR ''/'') \<longrightarrow>
      nameOfURL (pre @ b @ t) = strings_TrimSuffix b ''.git'')"
proof (intro conjI impI)
  assume "URL S m st = (Return url, st')"
  then show "Name S m st = (Return (nameOfURL url), st')"
    by (simp add: Name_def)
next
  assume "URL S m st = (Return url, st') \<and> URL S2 m2 st2 = (Return url, st2')"
  then show "fst (Name S m st) = fst (Name S2 m2 st2)"
    by (simp add: Name_def)
next
  assume "b \<noteq> [] \<and> CHR ''/'' \<notin> set b \<and> set t \<subseteq> {CHR ''/''} \<and> (pre = [] \<or> last pre = CHR ''/'')"
  then have "path_Base (pre @ b @ t) = b"
    by (intro path_Base_last_element) simp_all
  then show "nameOfURL (pre @ b @ t) = strings_TrimSuffix b ''.git''"
    by (simp add: nameOfURL_def)
qed

text \<open>
  C8 in the in-memory world: the remote of \<open>lib\<close> is \<open>https://example.org/org/lib.git\<close>, and
  the name is \<open>lib\<close>.
\<close>

theorem Name_of_URL_witness:
  "URL fakeSys libModule demoState
     = (Return ''https://example.org/org/lib.git'',
        demoState\<lparr>trace :=
          [Debug ''Running git command: git %s\<newline>'' [Str ''config --get remote.origin.url''],
           Debug ''Running jj command: jj %s\<newline>'' [Str ''git root''],
           Exec ''jj'' [''git'', ''root''] libPath,
           Exec ''git'' [''config'', ''--get'', ''remote.origin.url''] ''/ws/DEPS/lib/.jj/repo/store/git'']\<rparr>) \<and>
   fst (Name fakeSys libModule demoState) = Return ''lib'' \<and>
   nameOfURL (''https://example.org/org/'' @ ''lib.git'' @ []) = ''lib''"
proof -
  have root: "cmd_Run fakeSys ''jj'' [''git'', ''root''] (path libModule) (world demoState)
     = ((''/ws/DEPS/lib/.jj/repo/store/git\<newline>'', [], None), demoWorld)"
    by (simp add: demo_defs)
  have git: "cmd_Run fakeSys ''git'' [''config'', ''--get'', ''remote.origin.url'']
               (strings_TrimSuffix ''/ws/DEPS/lib/.jj/repo/store/git\<newline>'' ''\<newline>'') demoWorld
     = ((''https://example.org/org/lib.git\<newline>'', [], None), demoWorld)"
    by (simp add: demo_defs eval_defs)
  have url: "URL fakeSys libModule demoState
     = (Return ''https://example.org/org/lib.git'',
        demoState\<lparr>trace :=
          [Debug ''Running git command: git %s\<newline>'' [Str ''config --get remote.origin.url''],
           Debug ''Running jj command: jj %s\<newline>'' [Str ''git root''],
           Exec ''jj'' [''git'', ''root''] libPath,
           Exec ''git'' [''config'', ''--get'', ''remote.origin.url''] ''/ws/DEPS/lib/.jj/repo/store/git'']\<rparr>)"
    unfolding URL_def runGitCommand_run [OF root git]
    by (simp add: eval_defs) (simp add: demo_defs)
  have trim: "strings_TrimSuffix ''lib.git'' ''.git'' = ''lib''"
    by (simp add: eval_defs)
  from url Name_of_URL [of fakeSys libModule demoState "''https://example.org/org/lib.git''" _
      fakeSys libModule demoState _ "''lib.git''" "[]" "''https://example.org/org/''"]
  show ?thesis
    unfolding trim by simp
qed

subsection \<open>C9\<close>

text \<open>
  C9, as the claim states it: the searches terminate on every input path, and
  \<open>GetWorkspaceRoot\<close> returns the outermost enclosing module whose parent directory is not
  named \<open>DEPS\<close>. In the code, on the relative path \<open>.\<close> in a working directory that holds
  no module, \<open>getModuleRoot\<close> never returns: the parent of \<open>.\<close> is \<open>.\<close> again, and the root
  \<open>/\<close> is never reached. And where the module \<open>/a/b\<close> lies inside the module \<open>/a\<close>,
  \<open>GetWorkspaceRoot\<close> called in \<open>/a/b\<close> returns \<open>/a/b\<close>, though \<open>/a\<close>, its parent directory,
  is the root of an enclosing module and its own parent is not named \<open>DEPS\<close>.
\<close>

theorem root_search_counterexample:
  "getModuleRoot fakeSys strayWorld ''.'' = None \<and>
   GetWorkspaceRoot fakeSys \<lparr>world = nestedWorld, trace = []\<rparr>
     = Some (Return ''/a/b'', \<lparr>world = nestedWorld, trace = []\<rparr>) \<and>
   path_Dir ''/a/b'' = ''/a'' \<and>
   isWorkspaceRoot fakeSys nestedWorld ''/a''"
proof -
  have stray: "\<not> isModuleRoot fakeSys strayWorld ''.''"
    by (simp add: isModuleRoot_def FileExists_def DirExists_def path_eval ModuleFileName_def
        DepsDirName_def fakeSys_def strayWorld_def resolve_def path_IsAbs_def)
  have dot: "path_Dir ''.'' = ''.''"
    by (simp add: path_eval)
  have "False" if "getModuleRoot fakeSys strayWorld ''.'' = Some r" for r
  proof -
    let ?P = "\<lambda>S w p (r :: error + string). S = fakeSys \<and> w = strayWorld \<and> p = ''.'' \<longrightarrow> False"
    have "?P fakeSys strayWorld ''.'' r"
    proof (rule getModuleRoot.raw_induct [where P = ?P, OF _ that])
      fix f :: "fake sys \<Rightarrow> fake \<Rightarrow> string \<Rightarrow> (error + string) option" and S w p r
      assume IH: "\<And>S w p r. f S w p = Some r \<Longrightarrow> ?P S w p r"
        and eq: "(if isModuleRoot S w p then Some (Inr p)
                  else if p = ''/'' then Some (Inl (GoError ''not inside a module''))
                  else f S w (path_Dir p)) = Some r"
      show "?P S w p r"
      proof (intro impI, elim conjE)
        assume "S = fakeSys" and "w = strayWorld" and "p = ''.''"
        with eq stray dot have "f fakeSys strayWorld ''.'' = Some r"
          by simp
        from IH [OF this] show False
          by simp
      qed
    qed
    then show False
      by simp
  qed
  then have none: "getModuleRoot fakeSys strayWorld ''.'' = None"
    by (cases "getModuleRoot fakeSys strayWorld ''.''") auto
  have b: "isModuleRoot fakeSys nestedWorld ''/a/b''"
    by (simp add: isModuleRoot_def FileExists_def DirExists_def path_eval ModuleFileName_def
        DepsDirName_def fakeSys_def nestedWorld_def resolve_def path_IsAbs_def)
  have dir: "path_Dir ''/a/b'' = ''/a''"
    by (simp add: path_eval)
  have nodeps: "path_Base (path_Dir ''/a/b'') \<noteq> DepsDirName"
    by (simp add: path_eval DepsDirName_def)
  have a: "isWorkspaceRoot fakeSys nestedWorld ''/a''"
    by (simp add: isWorkspaceRoot_def isModuleRoot_def FileExists_def DirExists_def path_eval
        ModuleFileName_def DepsDirName_def fakeSys_def nestedWorld_def resolve_def path_IsAbs_def)
  have "getModuleRoot fakeSys nestedWorld ''/a/b'' = Some (Inr ''/a/b'')"
    using b by (subst getModuleRoot.simps) simp
  with nodeps have "workspaceRootLoop fakeSys nestedWorld ''/a/b'' = Some (Return ''/a/b'')"
    by (subst workspaceRootLoop.simps) simp
  then have ws: "GetWorkspaceRoot fakeSys \<lparr>world = nestedWorld, trace = []\<rparr>
     = Some (Return ''/a/b'', \<lparr>world = nestedWorld, trace = []\<rparr>)"
    by (simp add: GetWorkspaceRoot_def GetWorkingDir_def) (simp add: fakeSys_def nestedWorld_def)
  from none ws dir a show ?thesis
    by (intro conjI)
qed

text \<open>
  C9, amended. On every absolute path \<open>getModuleRoot\<close> returns, and \<open>GetWorkspaceRoot\<close>
  returns (or terminates the process) whenever the working directory is an absolute path,
  which is what \<open>os.Getwd\<close> gives. Each iteration returns or replaces the path by its
  parent directory, so on any path at all: when \<open>getModuleRoot\<close> returns a directory, it
  is the nearest one, going up from the input, that has a \<open>MODULE\<close> file, a parent directory
  named \<open>DEPS\<close> or a \<open>.git\<close> directory; when it returns an error, the root \<open>/\<close> was
  reached and no directory on the way up is such a one. When \<open>GetWorkspaceRoot\<close> returns a
  directory, it is the nearest one, going up from the working directory, that is the root
  of a module and whose parent directory is not named \<open>DEPS\<close>; the state is left as it is.
\<close>

theorem root_search:
  "(path_IsAbs p \<longrightarrow> (\<exists>r. getModuleRoot S w p = Some r)) \<and>
   (getModuleRoot S w p = Some (Inr q) \<longrightarrow> nearest (isModuleRoot S w) p q) \<and>
   (getModuleRoot S w p = Some (Inl err) \<longrightarrow>
      err = GoError ''not inside a module'' \<and> (\<exists>k. (path_Dir ^^ k) p = ''/'') \<and>
      (\<forall>k. \<not> isModuleRoot S w ((path_Dir ^^ k) p))) \<and>
   (os_Getwd S (world st) = Inr dir \<and> path_IsAbs dir \<longrightarrow> (\<exists>r. GetWorkspaceRoot S st = Some (r, st))) \<and>
   (os_Getwd S (world st) = Inr dir \<and> GetWorkspaceRoot S st = Some (Return t, st') \<longrightarrow>
      nearest (isWorkspaceRoot S (world st)) dir t \<and> st' = st)"
proof -
  have one: "path_IsAbs p \<longrightarrow> (\<exists>r. getModuleRoot S w p = Some r)"
    by (simp add: getModuleRoot_returns)
  have two: "getModuleRoot S w p = Some (Inr q) \<longrightarrow> nearest (isModuleRoot S w) p q"
    using getModuleRoot_result [of S w p "Inr q"] by simp
  have three: "getModuleRoot S w p = Some (Inl err) \<longrightarrow>
      err = GoError ''not inside a module'' \<and> (\<exists>k. (path_Dir ^^ k) p = ''/'') \<and>
      (\<forall>k. \<not> isModuleRoot S w ((path_Dir ^^ k) p))"
    using getModuleRoot_result [of S w p "Inl err"] by simp
  have four: "os_Getwd S (world st) = Inr dir \<and> path_IsAbs dir \<longrightarrow> (\<exists>r. GetWorkspaceRoot S st = Some (r, st))"
  proof
    assume h: "os_Getwd S (world st) = Inr dir \<and> path_IsAbs dir"
    with workspaceRootLoop_returns [of dir S "world st"] obtain r
      where "workspaceRootLoop S (world st) dir = Some r"
      by blast
    with h show "\<exists>r. GetWorkspaceRoot S st = Some (r, st)"
      by (simp add: GetWorkspaceRoot_def GetWorkingDir_def)
  qed
  have five: "os_Getwd S (world st) = Inr dir \<and> GetWorkspaceRoot S st = Some (Return t, st') \<longrightarrow>
      nearest (isWorkspaceRoot S (world st)) dir t \<and> st' = st"
  proof
    assume h: "os_Getwd S (world st) = Inr dir \<and> GetWorkspaceRoot S st = Some (Return t, st')"
    then have "workspaceRootLoop S (world st) dir = Some (Return t)" and st: "st' = st"
      by (auto simp: GetWorkspaceRoot_def GetWorkingDir_def)
    from workspaceRootLoop_result [OF this(1)] st
    show "nearest (isWorkspaceRoot S (world st)) dir t \<and> st' = st"
      by simp
  qed
  show ?thesis
    by (rule conjI [OF one conjI [OF two conjI [OF three conjI [OF four five]]]])
qed

text \<open>
  C9, amended, in the in-memory world: from \<open>/ws/DEPS/lib/src\<close> the module root is
  \<open>/ws/DEPS/lib\<close> and the workspace root is \<open>/ws\<close>; from \<open>/tmp\<close> of the world without modules
  the search ends at the root with the error.
\<close>

theorem root_search_witness:
  "path_IsAbs ''/ws/DEPS/lib/src'' \<and>
   getModuleRoot fakeSys demoWorld ''/ws/DEPS/lib/src'' = Some (Inr ''/ws/DEPS/lib'') \<and>
   nearest (isModuleRoot fakeSys demoWorld) ''/ws/DEPS/lib/src'' ''/ws/DEPS/lib'' \<and>
   getModuleRoot fakeSys strayWorld ''/tmp'' = Some (Inl (GoError ''not inside a module'')) \<and>
   os_Getwd fakeSys (world demoState) = Inr ''/ws/DEPS/lib/src'' \<and>
   GetWorkspaceRoot fakeSys demoState = Some (Return ''/ws'', demoState) \<and>
   nearest (isWorkspaceRoot fakeSys demoWorld) ''/ws/DEPS/lib/src'' ''/ws''"
proof -
  note ev = isModuleRoot_def FileExists_def DirExists_def path_eval ModuleFileName_def
    DepsDirName_def fakeSys_def demoWorld_def strayWorld_def resolve_def path_IsAbs_def
  have abs: "path_IsAbs ''/ws/DEPS/lib/src''"
    by (simp add: path_IsAbs_def)
  have m: "\<not> isModuleRoot fakeSys demoWorld ''/ws/DEPS/lib/src''" "isModuleRoot fakeSys demoWorld ''/ws/DEPS/lib''"
    "\<not> isModuleRoot fakeSys demoWorld ''/ws/DEPS''" "isModuleRoot fakeSys demoWorld ''/ws''"
    by (simp_all add: ev)
  have d: "path_Dir ''/ws/DEPS/lib/src'' = ''/ws/DEPS/lib''" "path_Dir ''/ws/DEPS/lib'' = ''/ws/DEPS''"
    "path_Dir ''/ws/DEPS'' = ''/ws''" "path_Dir ''/ws'' = ''/''" "path_Dir ''/tmp'' = ''/''"
    by (simp_all add: path_eval)
  have b: "path_Base ''/ws/DEPS'' = DepsDirName" "path_Base ''/'' \<noteq> DepsDirName"
    by (simp_all add: path_eval DepsDirName_def)
  have s: "\<not> isModuleRoot fakeSys strayWorld ''/tmp''" "\<not> isModuleRoot fakeSys strayWorld ''/''"
    by (simp_all add: ev)
  have g1: "getModuleRoot fakeSys demoWorld ''/ws/DEPS/lib'' = Some (Inr ''/ws/DEPS/lib'')"
    using m by (subst getModuleRoot.simps) simp
  have g0: "getModuleRoot fakeSys demoWorld ''/ws/DEPS/lib/src'' = Some (Inr ''/ws/DEPS/lib'')"
    using m d g1 by (subst getModuleRoot.simps) simp
  have g3: "getModuleRoot fakeSys demoWorld ''/ws'' = Some (Inr ''/ws'')"
    using m by (subst getModuleRoot.simps) simp
  have g2: "getModuleRoot fakeSys demoWorld ''/ws/DEPS'' = Some (Inr ''/ws'')"
    using m d g3 by (subst getModuleRoot.simps) simp
  have t1: "getModuleRoot fakeSys strayWorld ''/'' = Some (Inl (GoError ''not inside a module''))"
    using s by (subst getModuleRoot.simps) simp
  have t0: "getModuleRoot fakeSys strayWorld ''/tmp'' = Some (Inl (GoError ''not inside a module''))"
    using s d t1 by (subst getModuleRoot.simps) simp
  have w1: "workspaceRootLoop fakeSys demoWorld ''/ws/DEPS'' = Some (Return ''/ws'')"
    using g2 d b by (subst workspaceRootLoop.simps) simp
  have w0: "workspaceRootLoop fakeSys demoWorld ''/ws/DEPS/lib/src'' = Some (Return ''/ws'')"
    using g0 d b w1 by (subst workspaceRootLoop.simps) simp
  have cwd: "os_Getwd fakeSys (world demoState) = Inr ''/ws/DEPS/lib/src''"
    by (simp add: fakeSys_def demoState_def demoWorld_def)
  have wd: "world demoState = demoWorld"
    by (simp add: demoState_def)
  have ws: "GetWorkspaceRoot fakeSys demoState = Some (Return ''/ws'', demoState)"
    using cwd w0 wd by (simp add: GetWorkspaceRoot_def GetWorkingDir_def)
  have n1: "nearest (isModuleRoot fakeSys demoWorld) ''/ws/DEPS/lib/src'' ''/ws/DEPS/lib''"
    using g0 root_search [of "''/ws/DEPS/lib/src''" fakeSys demoWorld "''/ws/DEPS/lib''"] by blast
  have n2: "nearest (isWorkspaceRoot fakeSys demoWorld) ''/ws/DEPS/lib/src'' ''/ws''"
    using cwd ws wd
      root_search [of _ fakeSys _ _ _ demoState "''/ws/DEPS/lib/src''" "''/ws''" demoState]
    by simp
  from abs g0 n1 t0 cwd ws n2 show ?thesis
    by (intro conjI)
qed

subsection \<open>C10\<close>

text \<open>
  C10. For every string \<open>str\<close> and every \<open>pre\<close>: when \<open>pre\<close> is a prefix of \<open>str\<close>,
  \<open>CutPrefix str pre\<close> returns \<open>(rest, true)\<close> with \<open>pre\<close> followed by \<open>rest\<close> equal to
  \<open>str\<close>; otherwise it returns \<open>(str, false)\<close>; and with the empty prefix it always
  returns \<open>(str, true)\<close>.
\<close>

theorem CutPrefix_spec:
  "(prefix pre str \<longrightarrow> (\<exists>rest. CutPrefix str pre = (rest, True) \<and> pre @ rest = str)) \<and>
   (\<not> prefix pre str \<longrightarrow> CutPrefix str pre = (str, False)) \<and>
   CutPrefix str [] = (str, True)"
proof (intro conjI impI)
  assume "prefix pre str"
  then obtain r where r: "str = pre @ r"
    by (auto simp: prefix_def)
  then have "CutPrefix str pre = (r, True)"
    by (simp add: CutPrefix_def strings_HasPrefix_def)
  with r show "\<exists>rest. CutPrefix str pre = (rest, True) \<and> pre @ rest = str"
    by simp
next
  assume "\<not> prefix pre str"
  then show "CutPrefix str pre = (str, False)"
    by (simp add: CutPrefix_def strings_HasPrefix_iff_prefix)
next
  show "CutPrefix str [] = (str, True)"
    by (simp add: CutPrefix_def strings_HasPrefix_def)
qed

theorem CutPrefix_spec_witness:
  "prefix ''DEPS/'' ''DEPS/lib'' \<and> CutPrefix ''DEPS/lib'' ''DEPS/'' = (''lib'', True) \<and>
   \<not> prefix ''BUILD/'' ''DEPS/lib'' \<and> CutPrefix ''DEPS/lib'' ''BUILD/'' = (''DEPS/lib'', False) \<and>
   CutPrefix ''DEPS/lib'' [] = (''DEPS/lib'', True)"
  using CutPrefix_spec [of "''DEPS/''" "''DEPS/lib''"] CutPrefix_spec [of "''BUILD/''" "''DEPS/lib''"]
  by (simp add: CutPrefix_def strings_HasPrefix_def)

end
